theory Spec2Isabelle
  imports Complex_Main "HOL-Library.Word"
begin

unbundle bit_operations_syntax

section \<open>The kettle configuration controller of \<open>src/utils/kettle_ble.py\<close>\<close>

text \<open>
  The class \<open>StaggEKGPro_Config\<close> keeps the last known 17-byte configuration blob
  (\<open>_state_data\<close>), a write counter (\<open>_counter\<close>) and a BLE client. Every setter copies
  the cached blob, edits some bytes of the copy and hands it to \<open>_write_state\<close>.

  The embedding passes the state explicitly. A Python exception is the value
  \<open>Some e\<close> in the first component of an operation's result, together with the state
  the object is left in when the exception propagates.
\<close>

subsection \<open>Enumerations\<close>

datatype ClockMode = CLOCK_OFF | DIGITAL | ANALOG

datatype Units = CELSIUS | FAHRENHEIT

datatype ScheduleMode = OFF | ONCE | DAILY

datatype Language = ENGLISH | FRENCH | SPANISH | SIMPLIFIED_CHINESE | TRADITIONAL_CHINESE

fun ClockMode_value :: "ClockMode \<Rightarrow> int" where
  "ClockMode_value CLOCK_OFF = 0"
| "ClockMode_value DIGITAL = 1"
| "ClockMode_value ANALOG = 2"

fun Language_value :: "Language \<Rightarrow> int" where
  "Language_value ENGLISH = 0"
| "Language_value FRENCH = 1"
| "Language_value SPANISH = 2"
| "Language_value SIMPLIFIED_CHINESE = 3"
| "Language_value TRADITIONAL_CHINESE = 4"

text \<open>\<open>mode.name.lower()\<close> of a schedule mode.\<close>

fun ScheduleMode_name_lower :: "ScheduleMode \<Rightarrow> string" where
  "ScheduleMode_name_lower OFF = ''off''"
| "ScheduleMode_name_lower ONCE = ''once''"
| "ScheduleMode_name_lower DAILY = ''daily''"

subsection \<open>Byte arrays and exceptions\<close>

type_synonym byte = "8 word"

datatype error = RuntimeError | ValueError | IndexError | TypeError

text \<open>
  Reading \<open>data[i]\<close> gives a Python integer; it raises IndexError out of range.
  Storing \<open>data[i] = v\<close> in a bytearray raises IndexError out of range and ValueError
  when \<open>v\<close> is not in \<open>range(0, 256)\<close>.
\<close>

definition getitem :: "byte list \<Rightarrow> nat \<Rightarrow> error + int" where
  "getitem d i = (if i < length d then Inr (uint (d ! i)) else Inl IndexError)"

definition setitem :: "byte list \<Rightarrow> nat \<Rightarrow> int \<Rightarrow> error + byte list" where
  "setitem d i v =
     (if i < length d
      then (if v < 0 \<or> 255 < v then Inl ValueError else Inr (d[i := word_of_int v]))
      else Inl IndexError)"

definition bindE :: "error + 'a \<Rightarrow> ('a \<Rightarrow> error + 'b) \<Rightarrow> error + 'b" where
  "bindE x f = (case x of Inl e \<Rightarrow> Inl e | Inr v \<Rightarrow> f v)"

text \<open>The augmented assignments \<open>data[i] &= m\<close> and \<open>data[i] |= m\<close>.\<close>

definition iand_item :: "byte list \<Rightarrow> nat \<Rightarrow> int \<Rightarrow> error + byte list" where
  "iand_item d i m = bindE (getitem d i) (\<lambda>v. setitem d i (v AND m))"

definition ior_item :: "byte list \<Rightarrow> nat \<Rightarrow> int \<Rightarrow> error + byte list" where
  "ior_item d i m = bindE (getitem d i) (\<lambda>v. setitem d i (v OR m))"

subsection \<open>The controller object and the link\<close>

text \<open>
  \<open>connected\<close> is \<open>self.client and self.client.is_connected\<close>. The characteristic of
  the device is \<open>char_value\<close>: a read returns it and a write replaces it. \<open>written\<close>
  lists the blobs handed to \<open>write_gatt_char\<close>, oldest first. A read or write over a
  connected link is taken to succeed.
\<close>

record session =
  connected :: bool
  char_value :: "byte list"
  written :: "byte list list"
  state_data :: "byte list option"
  counter :: int

type_synonym action = "session \<Rightarrow> error option \<times> session"

definition and_then :: "action \<Rightarrow> action \<Rightarrow> action" where
  "and_then f g s = (case f s of (None, s') \<Rightarrow> g s' | (Some e, s') \<Rightarrow> (Some e, s'))"

text \<open>\<open>not self._state_data\<close>: true for \<open>None\<close> and for an empty bytearray.\<close>

definition falsy :: "byte list option \<Rightarrow> bool" where
  "falsy d = (d = None \<or> d = Some [])"

definition refresh_state :: action where
  "refresh_state s =
     (if \<not> connected s then (Some RuntimeError, s)
      else let data = char_value s; s1 = s\<lparr>state_data := Some data\<rparr>
           in (case getitem data 16 of
                 Inl e \<Rightarrow> (Some e, s1)
               | Inr c \<Rightarrow> (None, s1\<lparr>counter := c\<rparr>)))"

text \<open>
  \<open>_write_state\<close>: the counter byte is stored into the buffer before the write, the
  buffer becomes the cache afterwards.
\<close>

definition write_state :: "byte list \<Rightarrow> action" where
  "write_state new_data s =
     (if \<not> connected s then (Some RuntimeError, s)
      else (case setitem new_data 16 ((counter s + 1) AND 0xFF) of
              Inl e \<Rightarrow> (Some e, s)
            | Inr nd \<Rightarrow>
                (None, s\<lparr>char_value := nd, written := written s @ [nd],
                          state_data := Some nd, counter := uint (nd ! 16)\<rparr>)))"

text \<open>The guard \<open>if not self._state_data: await self.refresh_state()\<close> of every setter.\<close>

definition ensure_state :: action where
  "ensure_state s = (if falsy (state_data s) then refresh_state s else (None, s))"

text \<open>
  \<open>new_data = bytearray(self._state_data)\<close>, the edits of the copy, then
  \<open>await self._write_state(new_data)\<close>. (\<open>bytearray(None)\<close> raises TypeError.)
\<close>

definition modify_and_write :: "(byte list \<Rightarrow> error + byte list) \<Rightarrow> action" where
  "modify_and_write edits s =
     (case state_data s of
        None \<Rightarrow> (Some TypeError, s)
      | Some d \<Rightarrow> (case edits d of Inl e \<Rightarrow> (Some e, s) | Inr nd \<Rightarrow> write_state nd s))"

subsection \<open>Setters\<close>

text \<open>
  Temperatures are Python floats; the values that occur (arguments, and bytes halved
  by \<open>/ 2.0\<close>) are rationals on which comparison, doubling and truncation are exact.
  \<open>int(x)\<close> truncates towards zero.
\<close>

definition py_int :: "rat \<Rightarrow> int" where
  "py_int x = (if 0 \<le> x then \<lfloor>x\<rfloor> else \<lceil>x\<rceil>)"

definition set_target_temperature :: "rat \<Rightarrow> action" where
  "set_target_temperature temp_celsius =
     and_then ensure_state
       (let temp = max 0 (min 100 temp_celsius)
        in modify_and_write (\<lambda>d. setitem d 4 (py_int (temp * 2))))"

definition set_units :: "Units \<Rightarrow> action" where
  "set_units units =
     and_then ensure_state
       (modify_and_write (\<lambda>d. if units = CELSIUS then ior_item d 1 0x02
                               else iand_item d 1 (NOT 0x02)))"

definition set_clock_mode :: "ClockMode \<Rightarrow> action" where
  "set_clock_mode mode =
     and_then ensure_state (modify_and_write (\<lambda>d. setitem d 12 (ClockMode_value mode)))"

definition set_clock_time :: "int \<Rightarrow> int \<Rightarrow> ClockMode option \<Rightarrow> action" where
  "set_clock_time hours minutes mode =
     and_then ensure_state (\<lambda>s.
       if \<not> (0 \<le> hours \<and> hours \<le> 23) then (Some ValueError, s)
       else if \<not> (0 \<le> minutes \<and> minutes \<le> 59) then (Some ValueError, s)
       else modify_and_write (\<lambda>d.
              bindE (setitem d 10 minutes) (\<lambda>d.
              bindE (setitem d 11 hours) (\<lambda>d.
                case mode of None \<Rightarrow> Inr d
                           | Some m \<Rightarrow> setitem d 12 (ClockMode_value m)))) s)"

definition set_chime_volume :: "int \<Rightarrow> action" where
  "set_chime_volume volume =
     and_then ensure_state
       (let volume = max 0 (min 10 volume)
        in modify_and_write (\<lambda>d. setitem d 14 volume))"

definition set_pre_boil :: "bool \<Rightarrow> action" where
  "set_pre_boil enabled =
     and_then ensure_state
       (modify_and_write (\<lambda>d. if enabled then ior_item d 1 0x08
                               else iand_item d 1 (NOT 0x08)))"

definition set_hold_time :: "int \<Rightarrow> action" where
  "set_hold_time minutes =
     and_then ensure_state
       (let minutes = max 0 (min 60 minutes)
        in modify_and_write (\<lambda>d. setitem d 13 minutes))"

text \<open>The argument of \<open>set_language\<close> is a \<open>Language\<close> member by its type.\<close>

definition set_language :: "Language \<Rightarrow> action" where
  "set_language language =
     and_then ensure_state (modify_and_write (\<lambda>d. setitem d 15 (Language_value language)))"

subsection \<open>Altitude\<close>

text \<open>
  \<open>round(a / 30)\<close> for an integer \<open>a\<close>: Python rounds the quotient to the nearest
  integer and a tie to the even one. A tie is \<open>a = 30 * k + 15\<close>, where the quotient
  \<open>k + 0.5\<close> is a float; every other quotient is at least \<open>1/30\<close> away from a tie.
\<close>

definition py_round_div :: "int \<Rightarrow> int \<Rightarrow> int" where
  "py_round_div a n =
     (let q = a div n; r = a mod n
      in if 2 * r < n then q
         else if n < 2 * r then q + 1
         else if even q then q else q + 1)"

definition quantize :: "int \<Rightarrow> int" where
  "quantize altitude_meters = py_round_div (max 0 (min 3000 altitude_meters)) 30 * 30"

definition set_altitude :: "int \<Rightarrow> action" where
  "set_altitude altitude_meters =
     and_then ensure_state
       (let quantized = quantize altitude_meters;
            byte2 = quantized AND 0xFF;
            byte3 = 0x80 + ((drop_bit 8 quantized) AND 0x7F)
        in modify_and_write (\<lambda>d. bindE (setitem d 2 byte2) (\<lambda>d. setitem d 3 byte3)))"

definition get_altitude :: "session \<Rightarrow> int option" where
  "get_altitude s =
     (case state_data s of
        None \<Rightarrow> None
      | Some d \<Rightarrow>
          (if length d < 4 then None
           else let byte2 = uint (d ! 2); byte3 = uint (d ! 3);
                    altitude = (push_bit 8 (byte3 AND 0x7F)) OR byte2
                in Some (py_round_div altitude 30 * 30)))"

subsection \<open>Schedule\<close>

definition get_schedule_mode :: "session \<Rightarrow> string option" where
  "get_schedule_mode s =
     (case state_data s of
        None \<Rightarrow> None
      | Some d \<Rightarrow>
          (if length d < 17 then None
           else if uint (d ! 0) AND 0x08 = 0 then Some ''off''
           else let mode_bit = (drop_bit 3 (uint (d ! 16))) AND 1
                in if mode_bit = 1 then Some ''once'' else Some ''daily''))"

text \<open>The four edits of the OFF encoding, used by both the OFF branch and step 1.\<close>

definition schedule_off_edits :: "byte list \<Rightarrow> error + byte list" where
  "schedule_off_edits d =
     bindE (iand_item d 0 (NOT 0x08)) (\<lambda>d.
     bindE (setitem d 6 0xc0) (\<lambda>d.
     bindE (setitem d 8 0x00) (\<lambda>d.
     setitem d 9 0x00)))"

definition disable_step_edits :: "byte list \<Rightarrow> error + byte list" where
  "disable_step_edits d =
     bindE (schedule_off_edits d) (\<lambda>d.
     bindE (getitem d 16) (\<lambda>c.
     setitem d 16 ((c + 1) AND 0xFF)))"

definition enable_step_edits :: "ScheduleMode \<Rightarrow> int \<Rightarrow> int \<Rightarrow> rat \<Rightarrow> byte list \<Rightarrow> error + byte list" where
  "enable_step_edits mode hour minute temp_celsius d =
     bindE (ior_item d 0 0x08) (\<lambda>d.
     bindE (setitem d 6 (py_int (temp_celsius * 2))) (\<lambda>d.
     bindE (setitem d 8 minute) (\<lambda>d.
     bindE (setitem d 9 hour) (\<lambda>d.
     bindE (getitem d 16) (\<lambda>c.
       if mode = ONCE then setitem d 16 ((c OR 0x08) + 1)
       else setitem d 16 ((c AND NOT 0x08) + 1))))))"

text \<open>\<open>asyncio.sleep\<close> between the two steps does not touch the object.\<close>

definition set_schedule :: "ScheduleMode \<Rightarrow> int \<Rightarrow> int \<Rightarrow> rat \<Rightarrow> action" where
  "set_schedule mode hour minute temp_celsius =
     and_then ensure_state (\<lambda>s.
       if mode = OFF then modify_and_write schedule_off_edits s
       else if \<not> (0 \<le> hour \<and> hour \<le> 23) then (Some ValueError, s)
       else if \<not> (0 \<le> minute \<and> minute \<le> 59) then (Some ValueError, s)
       else let temp = max 0 (min 100 temp_celsius);
                current_mode = get_schedule_mode s;
                needs_disable =
                  ((current_mode = Some ''once'' \<or> current_mode = Some ''daily'')
                   \<and> current_mode \<noteq> Some (ScheduleMode_name_lower mode))
            in and_then
                 (if needs_disable then modify_and_write disable_step_edits
                  else (\<lambda>s. (None, s)))
                 (modify_and_write (enable_step_edits mode hour minute temp)) s)"

text \<open>
  The dictionary of \<open>get_schedule\<close>; \<open>None\<close> stands for the empty dictionary. The
  formatted \<open>schedule_time\<close>, which only log messages read, is left out.
\<close>

record schedule_info =
  schedule_mode :: string
  schedule_enabled :: bool
  schedule_temperature :: "rat option"
  schedule_hour :: "int option"
  schedule_minute :: "int option"

definition get_schedule :: "session \<Rightarrow> schedule_info option" where
  "get_schedule s =
     (case state_data s of
        None \<Rightarrow> None
      | Some d \<Rightarrow>
          (if length d < 17 then None
           else if uint (d ! 0) AND 0x08 = 0
           then Some \<lparr>schedule_mode = ''off'', schedule_enabled = False,
                      schedule_temperature = None, schedule_hour = None,
                      schedule_minute = None\<rparr>
           else let mode_bit = (drop_bit 3 (uint (d ! 16))) AND 1
                in Some \<lparr>schedule_mode = (if mode_bit = 1 then ''once'' else ''daily''),
                         schedule_enabled = True,
                         schedule_temperature = Some (of_int (uint (d ! 6)) / 2),
                         schedule_hour = Some (uint (d ! 9)),
                         schedule_minute = Some (uint (d ! 8))\<rparr>))"

subsection \<open>Smart turn-on\<close>

definition trigger_time :: "int \<Rightarrow> int \<Rightarrow> int \<times> int" where
  "trigger_time current_h current_m =
     (let trigger_m = current_m + 1;
          trigger_h = current_h;
          (trigger_m, trigger_h) =
             (if 60 \<le> trigger_m then (0, trigger_h + 1) else (trigger_m, trigger_h));
          trigger_h = (if 24 \<le> trigger_h then 0 else trigger_h)
      in (trigger_h, trigger_m))"

text \<open>
  Step 4. A schedule that was enabled is set again from the backup; otherwise
  \<open>set_schedule(mode=ScheduleMode.OFF)\<close> with the default arguments.
\<close>

definition restore_schedule :: "schedule_info option \<Rightarrow> action" where
  "restore_schedule backup_sched =
     (case backup_sched of
        None \<Rightarrow> set_schedule OFF 0 0 85
      | Some b \<Rightarrow>
          (if schedule_enabled b
           then (case (schedule_hour b, schedule_minute b, schedule_temperature b) of
                   (Some h, Some m, Some t) \<Rightarrow>
                     set_schedule (if schedule_mode b = ''daily'' then DAILY else ONCE) h m t
                 | _ \<Rightarrow> (\<lambda>s. (Some TypeError, s)))
           else set_schedule OFF 0 0 85))"

text \<open>
  \<open>temp_celsius\<close> is optional; \<open>temp_celsius if temp_celsius else ...\<close> takes the
  else branch for \<open>None\<close> and for zero. The 65 seconds of sleep between trigger and
  restore are run with no other operation on the object in between.
\<close>

definition current_target :: "byte list \<Rightarrow> error + rat" where
  "current_target d = bindE (getitem d 4) (\<lambda>v. Inr (of_int v / 2))"

definition turn_on_smart :: "rat option \<Rightarrow> action" where
  "turn_on_smart temp_celsius =
     and_then ensure_state (\<lambda>s.
       let backup_sched = get_schedule s
       in (case state_data s of
             None \<Rightarrow> (Some TypeError, s)
           | Some d \<Rightarrow>
              (case getitem d 11 of
                 Inl e \<Rightarrow> (Some e, s)
               | Inr current_h \<Rightarrow>
                  (case getitem d 10 of
                     Inl e \<Rightarrow> (Some e, s)
                   | Inr current_m \<Rightarrow>
                      (let (trigger_h, trigger_m) = trigger_time current_h current_m
                       in (case (case temp_celsius of
                                   None \<Rightarrow> current_target d
                                 | Some t \<Rightarrow> (if t = 0 then current_target d else Inr t)) of
                             Inl e \<Rightarrow> (Some e, s)
                           | Inr target_temp \<Rightarrow>
                               and_then (set_schedule ONCE trigger_h trigger_m target_temp)
                                        (restore_schedule backup_sched) s))))))"

subsection \<open>Setter calls as data\<close>

text \<open>One constructor for each setter of the class, and the call it stands for.\<close>

datatype command =
    SetTargetTemperature rat
  | SetUnits Units
  | SetClockMode ClockMode
  | SetClockTime int int "ClockMode option"
  | SetChimeVolume int
  | SetPreBoil bool
  | SetHoldTime int
  | SetAltitude int
  | SetLanguage Language
  | SetSchedule ScheduleMode int int rat

fun exec :: "command \<Rightarrow> action" where
  "exec (SetTargetTemperature t) = set_target_temperature t"
| "exec (SetUnits u) = set_units u"
| "exec (SetClockMode m) = set_clock_mode m"
| "exec (SetClockTime h m md) = set_clock_time h m md"
| "exec (SetChimeVolume v) = set_chime_volume v"
| "exec (SetPreBoil b) = set_pre_boil b"
| "exec (SetHoldTime m) = set_hold_time m"
| "exec (SetAltitude a) = set_altitude a"
| "exec (SetLanguage l) = set_language l"
| "exec (SetSchedule md h m t) = set_schedule md h m t"

text \<open>Calls made one after the other; the first exception ends the sequence.\<close>

fun exec_all :: "command list \<Rightarrow> action" where
  "exec_all [] = (\<lambda>s. (None, s))"
| "exec_all (c # cs) = and_then (exec c) (exec_all cs)"

subsection \<open>A sample object\<close>

text \<open>
  A connected controller whose cache holds a daily schedule at 07:00 and 85 degrees,
  the clock at 12:30, the target temperature 90 degrees and the counter 5.
\<close>

definition example_blob :: "byte list" where
  "example_blob = [0x08, 0x02, 0x00, 0x80, 180, 0x01, 170, 0x02, 0, 7, 30, 12, 1, 0, 5, 0, 5]"

definition example_session :: session where
  "example_session =
     \<lparr>connected = True, char_value = example_blob, written = [],
      state_data = Some example_blob, counter = 5\<rparr>"

text \<open>The same controller with the schedule switched off.\<close>

definition off_blob :: "byte list" where
  "off_blob = [0x00, 0x02, 0x00, 0x80, 180, 0x01, 0xC0, 0x02, 0, 0, 30, 12, 1, 0, 5, 0, 5]"

definition off_session :: session where
  "off_session =
     \<lparr>connected = True, char_value = off_blob, written = [],
      state_data = Some off_blob, counter = 5\<rparr>"

text \<open>The daily schedule again, with the counter (and byte 16) at 0xF6.\<close>

definition wrap_blob :: "byte list" where
  "wrap_blob = [0x08, 0x02, 0x00, 0x80, 180, 0x01, 170, 0x02, 0, 7, 30, 12, 1, 0, 5, 0, 0xF6]"

definition wrap_session :: session where
  "wrap_session =
     \<lparr>connected = True, char_value = wrap_blob, written = [],
      state_data = Some wrap_blob, counter = 0xF6\<rparr>"

subsection \<open>What a run of calls leaves behind\<close>

text \<open>
  \<open>trace_ok s s'\<close> relates the object before and after some calls: the link is the
  same, \<open>new\<close> is the list of blobs written in between, each of them carries the next
  counter value in byte 16, and the cache and the counter are those of the last write
  (nothing at all has changed when nothing was written). An action \<open>tracks\<close> when it
  keeps this relation from every object with a non-empty cache.
\<close>

definition trace_ok :: "session \<Rightarrow> session \<Rightarrow> bool" where
  "trace_ok s s' =
     (\<exists>new. written s' = written s @ new \<and> connected s' = connected s \<and>
        (new = [] \<longrightarrow> s' = s) \<and>
        (new \<noteq> [] \<longrightarrow> state_data s' = Some (last new) \<and>
                     counter s' = (counter s + int (length new)) mod 256) \<and>
        (\<forall>i<length new. 16 < length (new ! i) \<and>
                        uint (new ! i ! 16) = (counter s + 1 + int i) mod 256))"

definition tracks :: "action \<Rightarrow> bool" where
  "tracks f = (\<forall>s r s'. \<not> falsy (state_data s) \<longrightarrow> f s = (r, s') \<longrightarrow> trace_ok s s')"

subsection \<open>The bits a setter is meant to change\<close>

text \<open>
  \<open>target_mask c i\<close> marks the bits of byte \<open>i\<close> that belong to the field set by
  the call \<open>c\<close> (bytes 0 to 15; byte 16 is the write counter). \<open>agree M d w\<close>: the
  blob \<open>w\<close> has the length of \<open>d\<close> and equals it on every bit of bytes 0 to 15
  outside the mask. \<open>edits_ok\<close> and \<open>frames\<close> say that a sequence of edits of a
  buffer, respectively an action on the object, stays within the mask.
\<close>

fun target_mask :: "command \<Rightarrow> nat \<Rightarrow> byte" where
  "target_mask (SetTargetTemperature t) i = (if i = 4 then 0xFF else 0)"
| "target_mask (SetUnits u) i = (if i = 1 then 0x02 else 0)"
| "target_mask (SetClockMode m) i = (if i = 12 then 0xFF else 0)"
| "target_mask (SetClockTime h m md) i =
     (if i = 10 \<or> i = 11 then 0xFF else if i = 12 \<and> md \<noteq> None then 0xFF else 0)"
| "target_mask (SetChimeVolume v) i = (if i = 14 then 0xFF else 0)"
| "target_mask (SetPreBoil b) i = (if i = 1 then 0x08 else 0)"
| "target_mask (SetHoldTime m) i = (if i = 13 then 0xFF else 0)"
| "target_mask (SetAltitude a) i = (if i = 2 \<or> i = 3 then 0xFF else 0)"
| "target_mask (SetLanguage l) i = (if i = 15 then 0xFF else 0)"
| "target_mask (SetSchedule md h m t) i =
     (if i = 0 then 0x08 else if i = 6 \<or> i = 8 \<or> i = 9 then 0xFF else 0)"

definition agree :: "(nat \<Rightarrow> byte) \<Rightarrow> byte list \<Rightarrow> byte list \<Rightarrow> bool" where
  "agree M d w =
     (length w = length d \<and> (\<forall>i<16. w ! i AND NOT (M i) = d ! i AND NOT (M i)))"

definition edits_ok :: "(nat \<Rightarrow> byte) \<Rightarrow> (byte list \<Rightarrow> error + byte list) \<Rightarrow> bool" where
  "edits_ok M e = (\<forall>d nd. e d = Inr nd \<longrightarrow> agree M d nd)"

definition frames :: "(nat \<Rightarrow> byte) \<Rightarrow> byte list \<Rightarrow> action \<Rightarrow> bool" where
  "frames M d f =
     (\<forall>s r s' d0. state_data s = Some d0 \<longrightarrow> agree M d d0 \<longrightarrow> f s = (r, s') \<longrightarrow>
        (\<exists>new d'. written s' = written s @ new \<and> (\<forall>w\<in>set new. agree M d w) \<and>
                  state_data s' = Some d' \<and> agree M d d'))"

section \<open>Properties\<close>

subsection \<open>Bytes and single writes\<close>

lemma and_255: "(k::int) AND 255 = k mod 256"
proof -
  have "k AND mask 8 = k mod 2 ^ 8"
    by (simp add: take_bit_eq_mod flip: take_bit_eq_mask)
  then show ?thesis by (simp add: mask_eq_exp_minus_1)
qed

lemma uint_byte_of_mod: "uint (word_of_int (k mod 256) :: byte) = k mod 256"
  by (simp add: uint_word_of_int)

lemma uint_byte_range: "0 \<le> uint (w::byte) \<and> uint w \<le> 255"
  using uint_lt2p [of w] by simp

lemma setitem_ok:
  "i < length d \<Longrightarrow> 0 \<le> v \<Longrightarrow> v \<le> 255 \<Longrightarrow> setitem d i v = Inr (d[i := word_of_int v])"
  by (simp add: setitem_def)

lemma setitem_Inr:
  "setitem d i v = Inr nd \<Longrightarrow> i < length d \<and> 0 \<le> v \<and> v \<le> 255 \<and> nd = d[i := word_of_int v]"
  by (auto simp: setitem_def split: if_splits)

lemma write_state_eq:
  "write_state nd s =
     (if \<not> connected s then (Some RuntimeError, s)
      else if 16 < length nd
      then (None, s\<lparr>char_value := nd[16 := word_of_int ((counter s + 1) mod 256)],
                     written := written s @ [nd[16 := word_of_int ((counter s + 1) mod 256)]],
                     state_data := Some (nd[16 := word_of_int ((counter s + 1) mod 256)]),
                     counter := (counter s + 1) mod 256\<rparr>)
      else (Some IndexError, s))"
proof (cases "16 < length nd")
  case True
  have "0 \<le> (counter s + 1) mod 256" by simp
  moreover have "(counter s + 1) mod 256 < 256" by simp
  then have "(counter s + 1) mod 256 \<le> 255" by linarith
  ultimately have "setitem nd 16 ((counter s + 1) mod 256) =
      Inr (nd[16 := word_of_int ((counter s + 1) mod 256)])"
    using True by (rule_tac setitem_ok)
  then show ?thesis using True
    by (simp add: write_state_def and_255 uint_byte_of_mod)
next
  case False
  then show ?thesis by (simp add: write_state_def setitem_def)
qed

lemma iand_item_ok:
  "i < length d \<Longrightarrow> iand_item d i m = Inr (d[i := d ! i AND word_of_int m])"
proof -
  assume i: "i < length d"
  have "0 \<le> uint (d ! i) AND m" by (simp add: and_nonnegative_int_iff)
  moreover have "uint (d ! i) AND m \<le> uint (d ! i)" by (rule AND_upper1) simp
  then have "uint (d ! i) AND m \<le> 255" using uint_byte_range [of "d ! i"] by linarith
  moreover have "(word_of_int (uint (d ! i) AND m) :: byte) = d ! i AND word_of_int m"
    by (simp add: of_int_and_eq)
  ultimately show ?thesis using i
    by (simp add: iand_item_def getitem_def bindE_def setitem_def)
qed

lemma ior_item_ok:
  "i < length d \<Longrightarrow> 0 \<le> m \<Longrightarrow> m < 256 \<Longrightarrow> ior_item d i m = Inr (d[i := d ! i OR word_of_int m])"
proof -
  assume i: "i < length d" and m: "0 \<le> m" "m < 256"
  have "0 \<le> uint (d ! i) OR m" using m by (simp add: or_nonnegative_int_iff)
  moreover have "uint (d ! i) OR m < 2 ^ 8"
    by (rule OR_upper) (use m uint_lt2p [of "d ! i"] in auto)
  moreover have "(word_of_int (uint (d ! i) OR m) :: byte) = d ! i OR word_of_int m"
    by (simp add: of_int_or_eq)
  ultimately show ?thesis using i
    by (simp add: ior_item_def getitem_def bindE_def setitem_def)
qed


lemma not8_byte: "(word_of_int (NOT 8) :: byte) = NOT 8"
  by (simp add: of_int_not_eq)

lemma bit3_clear: "\<not> bit ((w::byte) AND NOT 8) 3"
  by (simp add: bit_and_iff bit_not_iff)

lemma schedule_off_edits_ok:
  "length d = 17 \<Longrightarrow>
   schedule_off_edits d = Inr (d[0 := d ! 0 AND NOT 8, 6 := 0xC0, 8 := 0, 9 := 0])"
  by (simp add: schedule_off_edits_def iand_item_ok setitem_ok bindE_def of_int_not_eq)

subsection \<open>Switching the schedule off\<close>

text \<open>
  Claim C7. With a cached 17-byte blob and a connected link, \<open>set_schedule(OFF)\<close>
  returns normally after exactly one physical write, whatever the blob (and so
  whatever the prior schedule mode) and whatever the other arguments. The written
  blob has bit 3 of byte 0 cleared, byte 6 equal to 0xC0 and bytes 8 and 9 equal to 0;
  it carries the next counter value in byte 16 and agrees with the cached blob on
  every other byte.
\<close>

theorem set_schedule_off_encoding:
  assumes "state_data s = Some d" and "length d = 17" and "connected s"
  shows "\<exists>w. set_schedule OFF hour minute temp s =
               (None, s\<lparr>char_value := w, written := written s @ [w],
                        state_data := Some w, counter := (counter s + 1) mod 256\<rparr>)
             \<and> length w = 17
             \<and> \<not> bit (w ! 0) 3 \<and> w ! 0 = d ! 0 AND NOT 0x08
             \<and> w ! 6 = 0xC0 \<and> w ! 8 = 0 \<and> w ! 9 = 0
             \<and> uint (w ! 16) = (counter s + 1) mod 256
             \<and> (\<forall>i<16. i \<notin> {0, 6, 8, 9} \<longrightarrow> w ! i = d ! i)"
proof -
  let ?w = "d[0 := d ! 0 AND NOT 8, 6 := 0xC0, 8 := 0, 9 := 0,
              16 := word_of_int ((counter s + 1) mod 256)]"
  have ne: "\<not> falsy (state_data s)" using assms by (auto simp: falsy_def)
  have run: "set_schedule OFF hour minute temp s =
               (None, s\<lparr>char_value := ?w, written := written s @ [?w],
                        state_data := Some ?w, counter := (counter s + 1) mod 256\<rparr>)"
    using assms ne
    by (simp add: set_schedule_def and_then_def ensure_state_def modify_and_write_def
        schedule_off_edits_ok write_state_eq)
  have "length ?w = 17" using assms by simp
  moreover have w0: "?w ! 0 = d ! 0 AND NOT 0x08"
    using assms by simp
  moreover have "\<not> bit (?w ! 0) 3" by (simp only: w0 bit3_clear not_False_eq_True)
  moreover have "?w ! 6 = 0xC0" "?w ! 8 = 0" "?w ! 9 = 0"
    using assms by simp_all
  moreover have "uint (?w ! 16) = (counter s + 1) mod 256"
    using assms by (simp add: uint_byte_of_mod)
  moreover have "\<forall>i<16. i \<notin> {0, 6, 8, 9} \<longrightarrow> ?w ! i = d ! i"
    using assms by (simp add: nth_list_update)
  ultimately show ?thesis using run by blast
qed

theorem set_schedule_off_encoding_witness:
  "state_data example_session = Some example_blob \<and> length example_blob = 17 \<and>
   connected example_session \<and>
   (\<exists>w. set_schedule OFF 0 0 85 example_session =
          (None, example_session\<lparr>char_value := w, written := written example_session @ [w],
                   state_data := Some w, counter := (counter example_session + 1) mod 256\<rparr>)
        \<and> length w = 17
        \<and> \<not> bit (w ! 0) 3 \<and> w ! 0 = example_blob ! 0 AND NOT 0x08
        \<and> w ! 6 = 0xC0 \<and> w ! 8 = 0 \<and> w ! 9 = 0
        \<and> uint (w ! 16) = (counter example_session + 1) mod 256
        \<and> (\<forall>i<16. i \<notin> {0, 6, 8, 9} \<longrightarrow> w ! i = example_blob ! i))"
proof -
  have h: "state_data example_session = Some example_blob" "length example_blob = 17"
    "connected example_session"
    by (simp_all add: example_session_def example_blob_def)
  show ?thesis using h set_schedule_off_encoding [OF h, of 0 0 85] by simp
qed

lemmas model_defs =
  set_schedule_def and_then_def ensure_state_def falsy_def get_schedule_mode_def
  modify_and_write_def disable_step_edits_def schedule_off_edits_def enable_step_edits_def
  iand_item_def ior_item_def getitem_def setitem_def bindE_def write_state_def py_int_def
  Let_def

subsection \<open>The write counter along a run of calls\<close>

lemma trace_ok_refl: "trace_ok s s"
  by (simp add: trace_ok_def)

lemma trace_ok_trans:
  assumes "trace_ok s s1" and "trace_ok s1 s2"
  shows "trace_ok s s2"
proof -
  from assms(1) obtain n1 where n1:
    "written s1 = written s @ n1" "connected s1 = connected s" "n1 = [] \<longrightarrow> s1 = s"
    "n1 \<noteq> [] \<longrightarrow> state_data s1 = Some (last n1) \<and>
                 counter s1 = (counter s + int (length n1)) mod 256"
    "\<forall>i<length n1. 16 < length (n1 ! i) \<and>
                   uint (n1 ! i ! 16) = (counter s + 1 + int i) mod 256"
    unfolding trace_ok_def by blast
  from assms(2) obtain n2 where n2:
    "written s2 = written s1 @ n2" "connected s2 = connected s1" "n2 = [] \<longrightarrow> s2 = s1"
    "n2 \<noteq> [] \<longrightarrow> state_data s2 = Some (last n2) \<and>
                 counter s2 = (counter s1 + int (length n2)) mod 256"
    "\<forall>i<length n2. 16 < length (n2 ! i) \<and>
                   uint (n2 ! i ! 16) = (counter s1 + 1 + int i) mod 256"
    unfolding trace_ok_def by blast
  show ?thesis
  proof (cases "n1 = []")
    case True
    then have "s1 = s" using n1(3) by simp
    then show ?thesis using assms(2) by simp
  next
    case ne1: False
    show ?thesis
    proof (cases "n2 = []")
      case True
      then have "s2 = s1" using n2(3) by simp
      then show ?thesis using assms(1) by simp
    next
      case ne2: False
      have c1: "counter s1 = (counter s + int (length n1)) mod 256" using n1(4) ne1 by simp
      have cnt: "counter s2 = (counter s + int (length (n1 @ n2))) mod 256"
      proof -
        have "counter s2 = ((counter s + int (length n1)) mod 256 + int (length n2)) mod 256"
          using n2(4) ne2 c1 by simp
        also have "\<dots> = (counter s + int (length n1) + int (length n2)) mod 256"
          by (simp add: mod_add_left_eq)
        finally show ?thesis by (simp add: add.assoc)
      qed
      have bytes: "\<forall>i<length (n1 @ n2). 16 < length ((n1 @ n2) ! i) \<and>
                     uint ((n1 @ n2) ! i ! 16) = (counter s + 1 + int i) mod 256"
      proof (intro allI impI)
        fix i assume i: "i < length (n1 @ n2)"
        show "16 < length ((n1 @ n2) ! i) \<and>
              uint ((n1 @ n2) ! i ! 16) = (counter s + 1 + int i) mod 256"
        proof (cases "i < length n1")
          case True
          then show ?thesis using n1(5) by (simp add: nth_append)
        next
          case False
          then have j: "i - length n1 < length n2" using i by simp
          have eq: "(n1 @ n2) ! i = n2 ! (i - length n1)" using False by (simp add: nth_append)
          have "uint (n2 ! (i - length n1) ! 16) =
                  ((counter s + int (length n1)) mod 256 + 1 + int (i - length n1)) mod 256"
            using n2(5) j c1 by simp
          also have "\<dots> = ((counter s + int (length n1)) mod 256 + (1 + int (i - length n1))) mod 256"
            by (simp add: add.assoc)
          also have "\<dots> = (counter s + int (length n1) + (1 + int (i - length n1))) mod 256"
            by (simp only: mod_add_left_eq)
          also have "\<dots> = (counter s + 1 + int i) mod 256"
            using False by (simp add: of_nat_diff algebra_simps)
          finally show ?thesis using n2(5) j eq by simp
        qed
      qed
      have "written s2 = written s @ (n1 @ n2)" using n1(1) n2(1) by simp
      moreover have "connected s2 = connected s" using n1(2) n2(2) by simp
      moreover have "n1 @ n2 \<noteq> []" using ne1 by simp
      moreover have "state_data s2 = Some (last (n1 @ n2))" using n2(4) ne2 by simp
      ultimately show ?thesis unfolding trace_ok_def using cnt bytes by blast
    qed
  qed
qed

lemma trace_ok_cached:
  assumes "\<not> falsy (state_data s)" and "trace_ok s s'"
  shows "\<not> falsy (state_data s')"
proof -
  from assms(2) obtain n where n:
    "n = [] \<longrightarrow> s' = s" "n \<noteq> [] \<longrightarrow> state_data s' = Some (last n)"
    "\<forall>i<length n. 16 < length (n ! i)"
    unfolding trace_ok_def by blast
  show ?thesis
  proof (cases "n = []")
    case True
    then show ?thesis using n(1) assms(1) by simp
  next
    case False
    then have "16 < length (last n)" using n(3) by (simp add: last_conv_nth)
    then show ?thesis using n(2) False by (auto simp: falsy_def)
  qed
qed

lemma tracks_write_state: "tracks (write_state nd)"
  unfolding tracks_def
proof (intro allI impI)
  fix s r s'
  assume "write_state nd s = (r, s')"
  then consider "s' = s" | "16 < length nd" "connected s"
      "s' = s\<lparr>char_value := nd[16 := word_of_int ((counter s + 1) mod 256)],
               written := written s @ [nd[16 := word_of_int ((counter s + 1) mod 256)]],
               state_data := Some (nd[16 := word_of_int ((counter s + 1) mod 256)]),
               counter := (counter s + 1) mod 256\<rparr>"
    by (auto simp: write_state_eq split: if_splits)
  then show "trace_ok s s'"
  proof cases
    case 1
    then show ?thesis by (simp add: trace_ok_refl)
  next
    case 2
    show ?thesis unfolding trace_ok_def
      by (rule exI [of _ "[nd[16 := word_of_int ((counter s + 1) mod 256)]]"])
         (use 2 in \<open>simp add: uint_byte_of_mod\<close>)
  qed
qed

lemma tracks_modify_and_write: "tracks (modify_and_write edits)"
  unfolding tracks_def
proof (intro allI impI)
  fix s r s'
  assume c: "\<not> falsy (state_data s)" and run: "modify_and_write edits s = (r, s')"
  from run consider "s' = s" | nd where "write_state nd s = (r, s')"
    by (auto simp: modify_and_write_def split: option.splits sum.splits)
  then show "trace_ok s s'"
  proof cases
    case 1
    then show ?thesis by (simp add: trace_ok_refl)
  next
    case 2
    then show ?thesis using tracks_write_state c unfolding tracks_def by blast
  qed
qed

lemma tracks_return: "tracks (\<lambda>s. (r, s))"
  by (simp add: tracks_def trace_ok_refl)

lemma tracks_ensure_state: "tracks ensure_state"
  by (simp add: tracks_def ensure_state_def trace_ok_refl)

lemma tracks_and_then:
  assumes "tracks f" and "tracks g"
  shows "tracks (and_then f g)"
  unfolding tracks_def
proof (intro allI impI)
  fix s r s'
  assume c: "\<not> falsy (state_data s)" and run: "and_then f g s = (r, s')"
  obtain r1 s1 where f: "f s = (r1, s1)" by (cases "f s")
  have t1: "trace_ok s s1" using assms(1) c f unfolding tracks_def by blast
  show "trace_ok s s'"
  proof (cases r1)
    case None
    then have "g s1 = (r, s')" using run f by (simp add: and_then_def)
    moreover have "\<not> falsy (state_data s1)" using c t1 by (rule trace_ok_cached)
    ultimately have "trace_ok s1 s'" using assms(2) unfolding tracks_def by blast
    with t1 show ?thesis by (rule trace_ok_trans)
  next
    case (Some e)
    then have "s' = s1" using run f by (simp add: and_then_def)
    then show ?thesis using t1 by simp
  qed
qed

lemma tracksD:
  "tracks f \<Longrightarrow> \<not> falsy (state_data s) \<Longrightarrow> f s = (r, s') \<Longrightarrow> trace_ok s s'"
  unfolding tracks_def by blast

lemma tracks_if: "tracks f \<Longrightarrow> tracks g \<Longrightarrow> tracks (if b then f else g)"
  by simp

lemma tracks_schedule_steps:
  "tracks (and_then (if b then modify_and_write e1 else (\<lambda>s. (None, s))) (modify_and_write e2))"
  by (intro tracks_and_then tracks_if tracks_modify_and_write tracks_return)

lemma tracks_set_schedule: "tracks (set_schedule mode hour minute temp)"
  unfolding set_schedule_def
proof (rule tracks_and_then [OF tracks_ensure_state], unfold tracks_def, intro allI impI)
  fix s r s'
  let ?body = "\<lambda>s. if mode = OFF then modify_and_write schedule_off_edits s
       else if \<not> (0 \<le> hour \<and> hour \<le> 23) then (Some ValueError, s)
       else if \<not> (0 \<le> minute \<and> minute \<le> 59) then (Some ValueError, s)
       else let temp = max 0 (min 100 temp);
                current_mode = get_schedule_mode s;
                needs_disable =
                  ((current_mode = Some ''once'' \<or> current_mode = Some ''daily'')
                   \<and> current_mode \<noteq> Some (ScheduleMode_name_lower mode))
            in and_then
                 (if needs_disable then modify_and_write disable_step_edits
                  else (\<lambda>s. (None, s)))
                 (modify_and_write (enable_step_edits mode hour minute temp)) s"
  assume c: "\<not> falsy (state_data s)" and run: "?body s = (r, s')"
  consider (off) "modify_and_write schedule_off_edits s = (r, s')"
    | (bad) "s' = s"
    | (steps) b t where
        "and_then (if b then modify_and_write disable_step_edits else (\<lambda>s. (None, s)))
           (modify_and_write (enable_step_edits mode hour minute t)) s = (r, s')"
    using run by (auto simp: Let_def split: if_splits)
  then show "trace_ok s s'"
  proof cases
    case off
    then show ?thesis using tracksD [OF tracks_modify_and_write c] by blast
  next
    case bad
    then show ?thesis by (simp add: trace_ok_refl)
  next
    case steps
    then show ?thesis using tracksD [OF tracks_schedule_steps c] by blast
  qed
qed

lemma tracks_set_clock_time: "tracks (set_clock_time h m md)"
  unfolding set_clock_time_def
proof (rule tracks_and_then [OF tracks_ensure_state], unfold tracks_def, intro allI impI)
  fix s r s'
  let ?e = "\<lambda>d. bindE (setitem d 10 m) (\<lambda>d. bindE (setitem d 11 h) (\<lambda>d.
                case md of None \<Rightarrow> Inr d | Some m \<Rightarrow> setitem d 12 (ClockMode_value m)))"
  assume c: "\<not> falsy (state_data s)"
    and run: "(if \<not> (0 \<le> h \<and> h \<le> 23) then (Some ValueError, s)
       else if \<not> (0 \<le> m \<and> m \<le> 59) then (Some ValueError, s)
       else modify_and_write ?e s) = (r, s')"
  consider "s' = s" | "modify_and_write ?e s = (r, s')"
    using run by (auto split: if_splits)
  then show "trace_ok s s'"
  proof cases
    case 1
    then show ?thesis by (simp add: trace_ok_refl)
  next
    case 2
    then show ?thesis using tracksD [OF tracks_modify_and_write c] by blast
  qed
qed

lemma tracks_exec: "tracks (exec c)"
proof (cases c)
  case (SetClockTime h m md)
  then show ?thesis by (simp add: tracks_set_clock_time)
next
  case (SetSchedule md h m t)
  then show ?thesis by (simp add: tracks_set_schedule)
qed (simp_all add: set_target_temperature_def set_units_def set_clock_mode_def
       set_chime_volume_def set_pre_boil_def set_hold_time_def set_altitude_def
       set_language_def Let_def tracks_and_then tracks_ensure_state tracks_modify_and_write)

lemma tracks_exec_all: "tracks (exec_all cs)"
  by (induction cs) (simp_all add: tracks_return tracks_and_then tracks_exec)

lemma and_then_success:
  "and_then f g s = (None, s') \<Longrightarrow> \<exists>s1. f s = (None, s1) \<and> g s1 = (None, s')"
  by (auto simp: and_then_def split: prod.splits option.splits)

lemma modify_and_write_success:
  "modify_and_write e s = (None, s') \<Longrightarrow> \<exists>x. written s' = written s @ [x]"
  by (auto simp: modify_and_write_def write_state_eq split: option.splits sum.splits if_splits)

lemma set_schedule_cached:
  "\<not> falsy (state_data s) \<Longrightarrow>
   set_schedule mode hour minute temp s =
     (if mode = OFF then modify_and_write schedule_off_edits s
      else if \<not> (0 \<le> hour \<and> hour \<le> 23) then (Some ValueError, s)
      else if \<not> (0 \<le> minute \<and> minute \<le> 59) then (Some ValueError, s)
      else and_then
             (if (get_schedule_mode s = Some ''once'' \<or> get_schedule_mode s = Some ''daily'')
                 \<and> get_schedule_mode s \<noteq> Some (ScheduleMode_name_lower mode)
              then modify_and_write disable_step_edits
              else (\<lambda>s. (None, s)))
             (modify_and_write (enable_step_edits mode hour minute (max 0 (min 100 temp)))) s)"
  by (simp add: set_schedule_def and_then_def ensure_state_def Let_def)

lemma set_schedule_success_writes:
  assumes c: "\<not> falsy (state_data s)"
    and run: "set_schedule mode hour minute temp s = (None, s')"
  shows "written s' \<noteq> written s"
proof -
  consider (one) e where "modify_and_write e s = (None, s')"
    | (two) f e where "tracks f" "and_then f (modify_and_write e) s = (None, s')"
    using run unfolding set_schedule_cached [OF c]
    by (auto split: if_splits intro: tracks_modify_and_write tracks_return)
  then show ?thesis
  proof cases
    case one
    then show ?thesis using modify_and_write_success by fastforce
  next
    case two
    then obtain s1 where s1: "f s = (None, s1)" "modify_and_write e s1 = (None, s')"
      using and_then_success by blast
    have "trace_ok s s1" using two(1) c s1(1) by (rule tracksD)
    then obtain n where "written s1 = written s @ n" unfolding trace_ok_def by blast
    moreover obtain x where "written s' = written s1 @ [x]"
      using s1(2) modify_and_write_success by blast
    ultimately show ?thesis by simp
  qed
qed

text \<open>
  Claim C3. Take any sequence of setter calls on an object with a non-empty cache (so
  that no call re-reads the device), whether it ends normally or in an exception, and
  let \<open>new\<close> be the physical writes it made, in order. The \<open>i\<close>-th of them stores
  \<open>(counter + 1 + i) mod 256\<close> in byte 16, so each write stores the counter before it
  plus one, and after \<open>N > 0\<close> writes the counter is \<open>(counter + N) mod 256\<close> and
  the cache is the last blob written. Both writes of a two-step schedule change are
  among these writes.
\<close>

theorem counter_advances_per_write:
  assumes "\<not> falsy (state_data s)" and "exec_all cmds s = (r, s')"
  shows "\<exists>new. written s' = written s @ new \<and>
           (\<forall>i<length new. 16 < length (new ! i) \<and>
                           uint (new ! i ! 16) = (counter s + 1 + int i) mod 256) \<and>
           (new \<noteq> [] \<longrightarrow> counter s' = (counter s + int (length new)) mod 256 \<and>
                         state_data s' = Some (last new)) \<and>
           (new = [] \<longrightarrow> counter s' = counter s)"
proof -
  have "trace_ok s s'" using tracks_exec_all assms by (rule tracksD)
  then obtain new where
    "written s' = written s @ new" "new = [] \<longrightarrow> s' = s"
    "new \<noteq> [] \<longrightarrow> state_data s' = Some (last new) \<and>
                  counter s' = (counter s + int (length new)) mod 256"
    "\<forall>i<length new. 16 < length (new ! i) \<and>
                    uint (new ! i ! 16) = (counter s + 1 + int i) mod 256"
    unfolding trace_ok_def by blast
  then show ?thesis by (intro exI [of _ new]) auto
qed

theorem counter_advances_per_write_witness:
  "\<not> falsy (state_data example_session) \<and>
   exec_all [SetSchedule ONCE 6 30 90, SetChimeVolume 3] example_session =
     (None, \<lparr>connected = True,
        char_value = [8, 2, 0, 128, 180, 1, 180, 2, 30, 6, 30, 12, 1, 0, 3, 0, 8],
        written = [[0, 2, 0, 128, 180, 1, 192, 2, 0, 0, 30, 12, 1, 0, 5, 0, 6],
                   [8, 2, 0, 128, 180, 1, 180, 2, 30, 6, 30, 12, 1, 0, 5, 0, 7],
                   [8, 2, 0, 128, 180, 1, 180, 2, 30, 6, 30, 12, 1, 0, 3, 0, 8]],
        state_data = Some [8, 2, 0, 128, 180, 1, 180, 2, 30, 6, 30, 12, 1, 0, 3, 0, 8],
        counter = 8\<rparr>) \<and>
   (\<exists>new. written \<lparr>connected = True,
        char_value = [8, 2, 0, 128, 180, 1, 180, 2, 30, 6, 30, 12, 1, 0, 3, 0, 8],
        written = [[0, 2, 0, 128, 180, 1, 192, 2, 0, 0, 30, 12, 1, 0, 5, 0, 6],
                   [8, 2, 0, 128, 180, 1, 180, 2, 30, 6, 30, 12, 1, 0, 5, 0, 7],
                   [8, 2, 0, 128, 180, 1, 180, 2, 30, 6, 30, 12, 1, 0, 3, 0, 8]],
        state_data = Some [8, 2, 0, 128, 180, 1, 180, 2, 30, 6, 30, 12, 1, 0, 3, 0, 8],
        counter = 8\<rparr> = written example_session @ new \<and>
      length new = 3 \<and>
      (\<forall>i<length new. 16 < length (new ! i) \<and>
                      uint (new ! i ! 16) = (counter example_session + 1 + int i) mod 256))"
proof -
  let ?s' = "\<lparr>connected = True,
        char_value = [8, 2, 0, 128, 180, 1, 180, 2, 30, 6, 30, 12, 1, 0, 3, 0, 8],
        written = [[0, 2, 0, 128, 180, 1, 192, 2, 0, 0, 30, 12, 1, 0, 5, 0, 6],
                   [8, 2, 0, 128, 180, 1, 180, 2, 30, 6, 30, 12, 1, 0, 5, 0, 7],
                   [8, 2, 0, 128, 180, 1, 180, 2, 30, 6, 30, 12, 1, 0, 3, 0, 8]],
        state_data = Some [8, 2, 0, 128, 180, 1, 180, 2, 30, 6, 30, 12, 1, 0, 3, 0, 8],
        counter = 8\<rparr> :: session"
  have h1: "\<not> falsy (state_data example_session)"
    by (simp add: falsy_def example_session_def example_blob_def)
  have h2: "exec_all [SetSchedule ONCE 6 30 90, SetChimeVolume 3] example_session = (None, ?s')"
    by (simp add: model_defs example_session_def example_blob_def set_chime_volume_def)
  from counter_advances_per_write [OF h1 h2] obtain new where new:
    "written ?s' = written example_session @ new"
    "\<forall>i<length new. 16 < length (new ! i) \<and>
                    uint (new ! i ! 16) = (counter example_session + 1 + int i) mod 256"
    by blast
  from new(1) have "written ?s' = new" by (simp add: example_session_def)
  then have "length new = 3" by auto
  with new h1 h2 show ?thesis by blast
qed

subsection \<open>Byte 16 of a written blob\<close>

text \<open>
  Claim C10. A successful \<open>_write_state\<close> leaves in byte 16 of the written and cached
  blob exactly \<open>(counter + 1) mod 256\<close>, and the result is the same whatever byte the
  caller had put at index 16 of the buffer. In particular, after a successful
  \<open>set_schedule\<close> with mode ONCE or DAILY on an object with a non-empty cache, byte 16
  of the last written (and cached) blob is the counter, the old counter plus the number
  of writes modulo 256: the mode bit that \<open>set_schedule\<close> places there is gone.
\<close>

theorem write_state_overwrites_counter_byte:
  "(write_state new_data s = (None, s') \<longrightarrow>
      state_data s' = Some (new_data[16 := word_of_int ((counter s + 1) mod 256)]) \<and>
      written s' = written s @ [new_data[16 := word_of_int ((counter s + 1) mod 256)]] \<and>
      uint (new_data[16 := word_of_int ((counter s + 1) mod 256)] ! 16) = (counter s + 1) mod 256 \<and>
      counter s' = (counter s + 1) mod 256 \<and>
      (\<forall>b. write_state (new_data[16 := b]) s = (None, s'))) \<and>
   (\<not> falsy (state_data s) \<and> mode \<noteq> OFF \<and>
    set_schedule mode hour minute temp s = (None, s'') \<longrightarrow>
      (\<exists>new. written s'' = written s @ new \<and> new \<noteq> [] \<and>
             state_data s'' = Some (last new) \<and>
             uint (last new ! 16) = (counter s + int (length new)) mod 256 \<and>
             uint (last new ! 16) = counter s''))"
proof (intro conjI impI)
  assume run: "write_state new_data s = (None, s')"
  let ?w = "new_data[16 := word_of_int ((counter s + 1) mod 256)]"
  from run have len: "16 < length new_data" and conn: "connected s"
    and s': "s' = s\<lparr>char_value := ?w, written := written s @ [?w],
                     state_data := Some ?w, counter := (counter s + 1) mod 256\<rparr>"
    by (auto simp: write_state_eq split: if_splits)
  show "state_data s' = Some ?w" using s' by simp
  show "written s' = written s @ [?w]" using s' by simp
  show "uint (?w ! 16) = (counter s + 1) mod 256" using len by (simp add: uint_byte_of_mod)
  show "counter s' = (counter s + 1) mod 256" using s' by simp
  show "\<forall>b. write_state (new_data[16 := b]) s = (None, s')"
    using len conn s' by (simp add: write_state_eq)
next
  assume "\<not> falsy (state_data s) \<and> mode \<noteq> OFF \<and>
          set_schedule mode hour minute temp s = (None, s'')"
  then have c: "\<not> falsy (state_data s)"
    and run: "set_schedule mode hour minute temp s = (None, s'')" by simp_all
  have "trace_ok s s''" using tracks_set_schedule c run by (rule tracksD)
  then obtain new where new:
    "written s'' = written s @ new" "new = [] \<longrightarrow> s'' = s"
    "new \<noteq> [] \<longrightarrow> state_data s'' = Some (last new) \<and>
                  counter s'' = (counter s + int (length new)) mod 256"
    "\<forall>i<length new. 16 < length (new ! i) \<and>
                    uint (new ! i ! 16) = (counter s + 1 + int i) mod 256"
    unfolding trace_ok_def by blast
  have ne: "new \<noteq> []" using set_schedule_success_writes [OF c run] new(1) by auto
  then have "length new - 1 < length new" by simp
  then have "uint (new ! (length new - 1) ! 16) = (counter s + 1 + int (length new - 1)) mod 256"
    using new(4) by blast
  moreover have "1 + int (length new - 1) = int (length new)" using ne
    by (cases new) simp_all
  ultimately have last16: "uint (last new ! 16) = (counter s + int (length new)) mod 256"
    using ne by (simp add: last_conv_nth add.assoc)
  show "\<exists>new. written s'' = written s @ new \<and> new \<noteq> [] \<and>
             state_data s'' = Some (last new) \<and>
             uint (last new ! 16) = (counter s + int (length new)) mod 256 \<and>
             uint (last new ! 16) = counter s''"
    using new(1,3) ne last16 by (intro exI [of _ new]) simp
qed

theorem write_state_overwrites_counter_byte_witness:
  "(write_state example_blob example_session =
      (None, \<lparr>connected = True,
         char_value = [8, 2, 0, 128, 180, 1, 170, 2, 0, 7, 30, 12, 1, 0, 5, 0, 6],
         written = [[8, 2, 0, 128, 180, 1, 170, 2, 0, 7, 30, 12, 1, 0, 5, 0, 6]],
         state_data = Some [8, 2, 0, 128, 180, 1, 170, 2, 0, 7, 30, 12, 1, 0, 5, 0, 6],
         counter = 6\<rparr>) \<and>
    (\<forall>b. write_state (example_blob[16 := b]) example_session =
      (None, \<lparr>connected = True,
         char_value = [8, 2, 0, 128, 180, 1, 170, 2, 0, 7, 30, 12, 1, 0, 5, 0, 6],
         written = [[8, 2, 0, 128, 180, 1, 170, 2, 0, 7, 30, 12, 1, 0, 5, 0, 6]],
         state_data = Some [8, 2, 0, 128, 180, 1, 170, 2, 0, 7, 30, 12, 1, 0, 5, 0, 6],
         counter = 6\<rparr>))) \<and>
   (\<not> falsy (state_data example_session) \<and> ONCE \<noteq> OFF \<and>
    set_schedule ONCE 6 30 90 example_session =
      (None, \<lparr>connected = True,
         char_value = [8, 2, 0, 128, 180, 1, 180, 2, 30, 6, 30, 12, 1, 0, 5, 0, 7],
         written = [[0, 2, 0, 128, 180, 1, 192, 2, 0, 0, 30, 12, 1, 0, 5, 0, 6],
                    [8, 2, 0, 128, 180, 1, 180, 2, 30, 6, 30, 12, 1, 0, 5, 0, 7]],
         state_data = Some [8, 2, 0, 128, 180, 1, 180, 2, 30, 6, 30, 12, 1, 0, 5, 0, 7],
         counter = 7\<rparr>) \<and>
    (\<exists>new. [[0, 2, 0, 128, 180, 1, 192, 2, 0, 0, 30, 12, 1, 0, 5, 0, 6],
             [8, 2, 0, 128, 180, 1, 180, 2, 30, 6, 30, 12, 1, 0, 5, 0, 7]]
              = written example_session @ new \<and> new \<noteq> [] \<and>
            uint (last new ! 16) = (counter example_session + int (length new)) mod 256))"
proof -
  let ?s1 = "\<lparr>connected = True,
         char_value = [8, 2, 0, 128, 180, 1, 170, 2, 0, 7, 30, 12, 1, 0, 5, 0, 6],
         written = [[8, 2, 0, 128, 180, 1, 170, 2, 0, 7, 30, 12, 1, 0, 5, 0, 6]],
         state_data = Some [8, 2, 0, 128, 180, 1, 170, 2, 0, 7, 30, 12, 1, 0, 5, 0, 6],
         counter = 6\<rparr> :: session"
  let ?s2 = "\<lparr>connected = True,
         char_value = [8, 2, 0, 128, 180, 1, 180, 2, 30, 6, 30, 12, 1, 0, 5, 0, 7],
         written = [[0, 2, 0, 128, 180, 1, 192, 2, 0, 0, 30, 12, 1, 0, 5, 0, 6],
                    [8, 2, 0, 128, 180, 1, 180, 2, 30, 6, 30, 12, 1, 0, 5, 0, 7]],
         state_data = Some [8, 2, 0, 128, 180, 1, 180, 2, 30, 6, 30, 12, 1, 0, 5, 0, 7],
         counter = 7\<rparr> :: session"
  have a: "write_state example_blob example_session = (None, ?s1)"
    by (simp add: model_defs example_session_def example_blob_def)
  have b: "\<not> falsy (state_data example_session) \<and> ONCE \<noteq> OFF \<and>
           set_schedule ONCE 6 30 90 example_session = (None, ?s2)"
    by (simp add: model_defs example_session_def example_blob_def)
  note inst = write_state_overwrites_counter_byte
    [of example_blob example_session ?s1 ONCE 6 30 90 ?s2]
  from inst a have "\<forall>b. write_state (example_blob[16 := b]) example_session = (None, ?s1)"
    by blast
  moreover from inst b obtain new where
    "written ?s2 = written example_session @ new" "new \<noteq> []"
    "uint (last new ! 16) = (counter example_session + int (length new)) mod 256"
    by blast
  ultimately show ?thesis using a b by auto
qed

subsection \<open>Set schedule and smart turn-on at particular objects\<close>

text \<open>
  Claim C2, at the sample object whose schedule is off (counter 5):
  \<open>set_schedule(ONCE, 6, 30, 90)\<close> returns normally after one write. The written blob
  has bit 3 of byte 0 set, byte 6 = 180, byte 8 = 30 and byte 9 = 6, but its byte 16 is
  the counter value 6, whose bit 3 is clear although the mode is ONCE; the object's own
  \<open>get_schedule_mode\<close> then reads the schedule as daily.
\<close>

theorem set_schedule_once_mode_bit_lost:
  "\<exists>w. set_schedule ONCE 6 30 90 off_session =
          (None, off_session\<lparr>char_value := w, written := [w],
                              state_data := Some w, counter := 6\<rparr>)
       \<and> w = [8, 2, 0, 128, 180, 1, 180, 2, 30, 6, 30, 12, 1, 0, 5, 0, 6]
       \<and> bit (w ! 0) 3 \<and> \<not> bit (w ! 16) 3
       \<and> get_schedule_mode (off_session\<lparr>char_value := w, written := [w],
                              state_data := Some w, counter := 6\<rparr>) = Some ''daily''"
  by (rule exI [of _ "[8, 2, 0, 128, 180, 1, 180, 2, 30, 6, 30, 12, 1, 0, 5, 0, 6]"])
     (simp add: model_defs off_session_def off_blob_def)

text \<open>
  Claim C4, at the sample object with a daily schedule and the counter at 0xF6:
  \<open>set_schedule(ONCE, 6, 30, 90)\<close> is a change from daily to once. The disabling
  write is made (byte 16 becomes 0xF7); the enabling step then computes
  \<open>(0xF7 | 0x08) + 1 = 256\<close> for byte 16 of its buffer, the store raises ValueError,
  and the call ends after one physical write with the schedule switched off.
\<close>

theorem set_schedule_mode_change_stops_after_disable:
  "get_schedule_mode wrap_session = Some ''daily'' \<and>
   set_schedule ONCE 6 30 90 wrap_session =
     (Some ValueError,
      wrap_session\<lparr>char_value := [0, 2, 0, 128, 180, 1, 192, 2, 0, 0, 30, 12, 1, 0, 5, 0, 247],
                    written := [[0, 2, 0, 128, 180, 1, 192, 2, 0, 0, 30, 12, 1, 0, 5, 0, 247]],
                    state_data := Some [0, 2, 0, 128, 180, 1, 192, 2, 0, 0, 30, 12, 1, 0, 5, 0, 247],
                    counter := 247\<rparr>)"
  by (simp add: model_defs wrap_session_def wrap_blob_def)

text \<open>
  Claim C5, at the sample object with a daily schedule at 07:00 and 85 degrees (counter
  5): \<open>turn_on_smart()\<close> returns normally after three writes. The last one restores
  hour, minute and temperature, but byte 16 of it is the counter value 8, so
  \<open>get_schedule\<close> reports the mode once where the backup said daily.
\<close>

theorem turn_on_smart_restores_other_mode:
  "get_schedule example_session =
     Some \<lparr>schedule_mode = ''daily'', schedule_enabled = True,
           schedule_temperature = Some 85, schedule_hour = Some 7, schedule_minute = Some 0\<rparr> \<and>
   fst (turn_on_smart None example_session) = None \<and>
   written (snd (turn_on_smart None example_session)) =
     [[0, 2, 0, 128, 180, 1, 192, 2, 0, 0, 30, 12, 1, 0, 5, 0, 6],
      [8, 2, 0, 128, 180, 1, 180, 2, 31, 12, 30, 12, 1, 0, 5, 0, 7],
      [8, 2, 0, 128, 180, 1, 170, 2, 0, 7, 30, 12, 1, 0, 5, 0, 8]] \<and>
   get_schedule (snd (turn_on_smart None example_session)) =
     Some \<lparr>schedule_mode = ''once'', schedule_enabled = True,
           schedule_temperature = Some 85, schedule_hour = Some 7, schedule_minute = Some 0\<rparr>"
  by (simp add: model_defs example_session_def example_blob_def get_schedule_def turn_on_smart_def restore_schedule_def trigger_time_def current_target_def)

text \<open>
  Claim C6, at the same object (target temperature 90 degrees, clock 12:30):
  \<open>turn_on_smart(0)\<close> does what \<open>turn_on_smart()\<close> does. The trigger write is a
  schedule at 12:31 whose byte 6 is 180, twice the current target temperature, not twice
  the temperature 0 that the caller supplied.
\<close>

theorem turn_on_smart_ignores_zero_temperature:
  "turn_on_smart (Some 0) example_session = turn_on_smart None example_session \<and>
   fst (turn_on_smart (Some 0) example_session) = None \<and>
   written (snd (turn_on_smart (Some 0) example_session)) ! 1 =
     [8, 2, 0, 128, 180, 1, 180, 2, 31, 12, 30, 12, 1, 0, 5, 0, 7] \<and>
   uint (written (snd (turn_on_smart (Some 0) example_session)) ! 1 ! 6) = 2 * 90"
  by (simp add: model_defs example_session_def example_blob_def get_schedule_def turn_on_smart_def restore_schedule_def trigger_time_def current_target_def)

subsection \<open>Altitude\<close>

lemma quantize_props:
  "0 \<le> quantize a \<and> quantize a \<le> 3000 \<and> 30 dvd quantize a \<and>
   \<bar>quantize a - max 0 (min 3000 a)\<bar> \<le> 15"
proof -
  define c where "c = max 0 (min 3000 a)"
  define k where "k = c div 30"
  define r where "r = c mod 30"
  have c: "0 \<le> c" "c \<le> 3000" by (simp_all add: c_def)
  have r: "0 \<le> r" "r < 30" by (simp_all add: r_def)
  have ck: "c = 30 * k + r" by (simp add: k_def r_def)
  have q: "quantize a = (if 2 * r < 30 then k else if 30 < 2 * r then k + 1
                         else if even k then k else k + 1) * 30"
    by (simp add: quantize_def py_round_div_def Let_def c_def k_def r_def)
  have k0: "0 \<le> k" using c by (simp add: k_def)
  show ?thesis unfolding q c_def [symmetric] using c r ck k0 by auto
qed

lemma add_128_or: "0 \<le> x \<Longrightarrow> x < 128 \<Longrightarrow> (128::int) + x = 128 OR x"
proof -
  assume x: "0 \<le> x" "x < 128"
  have tb: "take_bit 7 x = x" using x by (simp add: take_bit_int_eq_self)
  have "\<not> bit (128::int) n \<or> \<not> bit x n" for n
  proof (cases "n < 7")
    case True
    have "(128::int) = 2 ^ 7" by simp
    then have "bit (128::int) n \<longleftrightarrow> n = 7" by (simp only: bit_exp_iff) auto
    then show ?thesis using True by simp
  next
    case False
    have "bit x n = bit (take_bit 7 x) n" by (simp only: tb)
    then have "\<not> bit x n" using False by (simp add: bit_take_bit_iff)
    then show ?thesis by simp
  qed
  then show ?thesis by (rule disjunctive_add)
qed

lemma and_127_range: "0 \<le> (y::int) AND 127 \<and> y AND 127 < 128"
proof -
  have "y AND mask 7 = y mod 2 ^ 7"
    by (simp add: take_bit_eq_mod flip: take_bit_eq_mask)
  then have "y AND 127 = y mod 128" by (simp add: mask_eq_exp_minus_1)
  then show ?thesis by simp
qed

lemma altitude_bytes_roundtrip:
  assumes "0 \<le> q" and "q < 32768"
  shows "push_bit 8 ((128 + (drop_bit 8 q AND 127)) AND 127) OR (q AND 255) = (q::int)"
proof -
  have tb: "take_bit 15 q = q" using assms by (simp add: take_bit_int_eq_self)
  have hi: "\<not> bit q n" if "15 \<le> n" for n
  proof -
    have "bit q n = bit (take_bit 15 q) n" by (simp only: tb)
    then show ?thesis using that by (simp add: bit_take_bit_iff)
  qed
  have m127: "(127::int) = mask 7" by (simp add: mask_eq_exp_minus_1)
  have m255: "(255::int) = mask 8" by (simp add: mask_eq_exp_minus_1)
  have e: "128 + (drop_bit 8 q AND 127) = 128 OR (drop_bit 8 q AND 127)"
    using and_127_range [of "drop_bit 8 q"] by (intro add_128_or) simp_all
  have p128: "(128::int) = 2 ^ 7" by simp
  show ?thesis
    unfolding e
  proof (rule bit_eqI)
    fix n
    have b128: "bit (128::int) k \<longleftrightarrow> k = 7" for k
      by (simp only: p128 bit_exp_iff) auto
    have b32768: "bit (32768::int) k \<longleftrightarrow> k = 15" for k
    proof -
      have "(32768::int) = 2 ^ 15" by simp
      then show ?thesis by (simp only: bit_exp_iff) auto
    qed
    show "bit (push_bit 8 ((128 OR (drop_bit 8 q AND 127)) AND 127) OR (q AND 255)) n = bit q n"
    proof (cases "n < 15")
      case True
      then show ?thesis
        by (auto simp: bit_or_iff bit_and_iff bit_push_bit_iff bit_drop_bit_eq m127 m255
            bit_mask_iff b128 b32768)
    next
      case False
      then have "\<not> bit q n" using hi [of n] by simp
      then show ?thesis using False
        by (auto simp: bit_or_iff bit_and_iff bit_push_bit_iff bit_drop_bit_eq m127 m255
            bit_mask_iff b128 b32768)
    qed
  qed
qed


lemma uint_byte_of_small: "0 \<le> x \<Longrightarrow> x \<le> 255 \<Longrightarrow> uint (word_of_int x :: byte) = x"
  by (simp add: uint_word_of_int)

lemma py_round_div_multiple: "30 dvd q \<Longrightarrow> py_round_div q 30 * 30 = q"
  by (auto simp: py_round_div_def Let_def)

lemma get_altitude_multiple: "get_altitude t = Some v \<Longrightarrow> 30 dvd v"
  by (auto simp: get_altitude_def Let_def split: option.splits if_splits)

text \<open>
  Claim C8. With a cached 17-byte blob and a connected link, \<open>set_altitude(a)\<close>
  returns normally after one write. The value \<open>quantize a\<close> it encodes lies in
  \<open>[0, 3000]\<close>, is a multiple of 30 and is at most 15 away from \<open>a\<close> clamped to
  \<open>[0, 3000]\<close> (a nearest multiple of 30). Byte 2 of the written blob is its low 8
  bits and byte 3 is \<open>0x80 | ((value >> 8) & 0x7F)\<close>. \<open>get_altitude\<close> afterwards
  returns the quantized value, which is 90 for the argument 100, and whatever
  \<open>get_altitude\<close> returns on any object is a multiple of 30.
\<close>

theorem set_altitude_quantizes:
  assumes "state_data s = Some d" and "length d = 17" and "connected s"
  shows "\<exists>w s'. set_altitude altitude_meters s = (None, s') \<and>
           written s' = written s @ [w] \<and> state_data s' = Some w \<and>
           0 \<le> quantize altitude_meters \<and> quantize altitude_meters \<le> 3000 \<and>
           30 dvd quantize altitude_meters \<and>
           \<bar>quantize altitude_meters - max 0 (min 3000 altitude_meters)\<bar> \<le> 15 \<and>
           uint (w ! 2) = quantize altitude_meters AND 0xFF \<and>
           uint (w ! 3) = 0x80 OR (drop_bit 8 (quantize altitude_meters) AND 0x7F) \<and>
           get_altitude s' = Some (quantize altitude_meters) \<and>
           quantize 100 = 90 \<and>
           (\<forall>t v. get_altitude t = Some v \<longrightarrow> 30 dvd v)"
proof -
  define q where "q = quantize altitude_meters"
  define b2 where "b2 = q AND 255"
  define b3 where "b3 = 128 + (drop_bit 8 q AND 127)"
  define w where "w = d[2 := word_of_int b2, 3 := word_of_int b3,
                        16 := word_of_int ((counter s + 1) mod 256)]"
  define s' where "s' = s\<lparr>char_value := w, written := written s @ [w],
                            state_data := Some w, counter := (counter s + 1) mod 256\<rparr>"
  have qp: "0 \<le> q" "q \<le> 3000" "30 dvd q" "\<bar>q - max 0 (min 3000 altitude_meters)\<bar> \<le> 15"
    using quantize_props [of altitude_meters] by (simp_all add: q_def)
  have b2r: "0 \<le> b2" "b2 \<le> 255"
  proof -
    have "b2 = q mod 256" by (simp add: b2_def and_255)
    then show "0 \<le> b2" "b2 \<le> 255" by simp_all
  qed
  have b3r: "0 \<le> b3" "b3 \<le> 255"
    using and_127_range [of "drop_bit 8 q"] by (simp_all add: b3_def)
  have ne: "\<not> falsy (state_data s)" using assms by (auto simp: falsy_def)
  have edits: "bindE (setitem d 2 b2) (\<lambda>d. setitem d 3 b3) =
                 Inr (d[2 := word_of_int b2, 3 := word_of_int b3])"
    using assms(2) b2r b3r by (simp add: setitem_ok bindE_def)
  have run: "set_altitude altitude_meters s = (None, s')"
    using assms ne edits
    by (simp add: set_altitude_def and_then_def ensure_state_def modify_and_write_def
        Let_def write_state_eq q_def [symmetric] b2_def [symmetric] b3_def [symmetric]
        w_def s'_def)
  have w2: "uint (w ! 2) = b2" using assms(2) b2r by (simp add: w_def uint_byte_of_small)
  have w3: "uint (w ! 3) = b3" using assms(2) b3r by (simp add: w_def uint_byte_of_small)
  have b3or: "b3 = 128 OR (drop_bit 8 q AND 127)"
    unfolding b3_def using and_127_range [of "drop_bit 8 q"] by (intro add_128_or) simp_all
  have "push_bit 8 (b3 AND 127) OR b2 = q"
    unfolding b3_def b2_def using qp by (intro altitude_bytes_roundtrip) simp_all
  then have get: "get_altitude s' = Some q"
    using assms(2) w2 w3 qp(3)
    by (simp add: get_altitude_def s'_def Let_def py_round_div_multiple) (simp add: w_def)
  have q100: "quantize 100 = 90" by (simp add: quantize_def py_round_div_def Let_def)
  have "written s' = written s @ [w]" "state_data s' = Some w" by (simp_all add: s'_def)
  then show ?thesis
    using run qp w2 w3 b3or get q100 get_altitude_multiple
    unfolding q_def b2_def by (intro exI [of _ w] exI [of _ s']) blast
qed

theorem set_altitude_quantizes_witness:
  "state_data example_session = Some example_blob \<and> length example_blob = 17 \<and>
   connected example_session \<and>
   set_altitude 100 example_session =
     (None, example_session
        \<lparr>char_value := [8, 2, 90, 128, 180, 1, 170, 2, 0, 7, 30, 12, 1, 0, 5, 0, 6],
         written := [[8, 2, 90, 128, 180, 1, 170, 2, 0, 7, 30, 12, 1, 0, 5, 0, 6]],
         state_data := Some [8, 2, 90, 128, 180, 1, 170, 2, 0, 7, 30, 12, 1, 0, 5, 0, 6],
         counter := 6\<rparr>) \<and>
   (\<exists>w s'. set_altitude 100 example_session = (None, s') \<and>
           written s' = written example_session @ [w] \<and>
           uint (w ! 2) = quantize 100 AND 0xFF \<and>
           uint (w ! 3) = 0x80 OR (drop_bit 8 (quantize 100) AND 0x7F) \<and>
           get_altitude s' = Some 90)"
proof -
  have h: "state_data example_session = Some example_blob" "length example_blob = 17"
    "connected example_session"
    by (simp_all add: example_session_def example_blob_def)
  have run: "set_altitude 100 example_session =
     (None, example_session
        \<lparr>char_value := [8, 2, 90, 128, 180, 1, 170, 2, 0, 7, 30, 12, 1, 0, 5, 0, 6],
         written := [[8, 2, 90, 128, 180, 1, 170, 2, 0, 7, 30, 12, 1, 0, 5, 0, 6]],
         state_data := Some [8, 2, 90, 128, 180, 1, 170, 2, 0, 7, 30, 12, 1, 0, 5, 0, 6],
         counter := 6\<rparr>)"
    by (simp add: model_defs example_session_def example_blob_def set_altitude_def quantize_def py_round_div_def)
  from set_altitude_quantizes [OF h, of 100] obtain w s' where
    "set_altitude 100 example_session = (None, s')"
    "written s' = written example_session @ [w]"
    "uint (w ! 2) = quantize 100 AND 0xFF"
    "uint (w ! 3) = 0x80 OR (drop_bit 8 (quantize 100) AND 0x7F)"
    "get_altitude s' = Some (quantize 100)" "quantize 100 = 90"
    by blast
  then show ?thesis using h run by (intro conjI exI [of _ w] exI [of _ s']) simp_all
qed

subsection \<open>Arguments out of range\<close>

text \<open>
  Claim C9, as stated, fails for the chime volume and the temperature: the volume 11
  and the temperature 150 raise nothing; the setters write the clamped values 10
  (byte 14) and 100 degrees (byte 4 = 200).
\<close>

theorem out_of_range_values_written_counterexample:
  "set_chime_volume 11 example_session =
     (None, example_session
        \<lparr>char_value := [8, 2, 0, 128, 180, 1, 170, 2, 0, 7, 30, 12, 1, 0, 10, 0, 6],
         written := [[8, 2, 0, 128, 180, 1, 170, 2, 0, 7, 30, 12, 1, 0, 10, 0, 6]],
         state_data := Some [8, 2, 0, 128, 180, 1, 170, 2, 0, 7, 30, 12, 1, 0, 10, 0, 6],
         counter := 6\<rparr>) \<and>
   set_target_temperature 150 example_session =
     (None, example_session
        \<lparr>char_value := [8, 2, 0, 128, 200, 1, 170, 2, 0, 7, 30, 12, 1, 0, 5, 0, 6],
         written := [[8, 2, 0, 128, 200, 1, 170, 2, 0, 7, 30, 12, 1, 0, 5, 0, 6]],
         state_data := Some [8, 2, 0, 128, 200, 1, 170, 2, 0, 7, 30, 12, 1, 0, 5, 0, 6],
         counter := 6\<rparr>)"
  by (simp add: model_defs example_session_def example_blob_def set_chime_volume_def set_target_temperature_def)

lemma ensure_state_no_write:
  "ensure_state s = (r, s1) \<Longrightarrow> written s1 = written s \<and> char_value s1 = char_value s"
  by (auto simp: ensure_state_def refresh_state_def Let_def split: if_splits sum.splits)

lemma clamp_clamp: "max 0 (min (h::'a::{linorder,zero}) (max 0 (min h x))) = max 0 (min h x)"
  by (simp add: max_def min_def)

lemma clamped_temp_byte:
  "0 \<le> py_int (max 0 (min 100 t) * 2) \<and> py_int (max 0 (min 100 t) * 2) \<le> 200"
proof -
  define c where "c = max 0 (min 100 t)"
  have c: "0 \<le> c" "c \<le> 100" by (simp_all add: c_def)
  then have "0 \<le> c * 2" "c * 2 \<le> 200" by simp_all
  then have "0 \<le> \<lfloor>c * 2\<rfloor>" "\<lfloor>c * 2\<rfloor> \<le> 200"
    by (simp_all add: floor_le_iff) 
  then show ?thesis using c by (simp add: py_int_def c_def [symmetric])
qed

lemma setter_single_write:
  assumes "state_data s = Some d" and "length d = 17" and "connected s"
    and "i < 16" and "0 \<le> v" and "v \<le> 255"
  shows "\<exists>w. and_then ensure_state (modify_and_write (\<lambda>d. setitem d i v)) s =
               (None, s\<lparr>char_value := w, written := written s @ [w],
                        state_data := Some w, counter := (counter s + 1) mod 256\<rparr>)
             \<and> w = d[i := word_of_int v, 16 := word_of_int ((counter s + 1) mod 256)]
             \<and> uint (w ! i) = v"
proof -
  let ?w = "d[i := word_of_int v, 16 := word_of_int ((counter s + 1) mod 256)]"
  have ne: "\<not> falsy (state_data s)" using assms by (auto simp: falsy_def)
  have "setitem d i v = Inr (d[i := word_of_int v])" using assms by (simp add: setitem_ok)
  then have "and_then ensure_state (modify_and_write (\<lambda>d. setitem d i v)) s =
               (None, s\<lparr>char_value := ?w, written := written s @ [?w],
                        state_data := Some ?w, counter := (counter s + 1) mod 256\<rparr>)"
    using assms ne
    by (simp add: and_then_def ensure_state_def modify_and_write_def write_state_eq)
  moreover have "uint (?w ! i) = v" using assms by (simp add: uint_byte_of_small)
  ultimately show ?thesis by blast
qed

lemma enable_step_byte6:
  "enable_step_edits mode hour minute t d = Inr nd \<Longrightarrow>
   6 < length nd \<and> uint (nd ! 6) = py_int (t * 2)"
  unfolding enable_step_edits_def bindE_def ior_item_def
  by (auto split: sum.splits if_splits dest!: setitem_Inr simp: uint_byte_of_small)

lemma enable_write_byte6:
  assumes "modify_and_write (enable_step_edits mode hour minute t) s1 = (None, s')"
  shows "\<exists>w. written s' = written s1 @ [w] \<and> uint (w ! 6) = py_int (t * 2)"
proof -
  from assms obtain d1 nd where nd: "enable_step_edits mode hour minute t d1 = Inr nd"
    and w: "write_state nd s1 = (None, s')"
    by (auto simp: modify_and_write_def split: option.splits sum.splits)
  from w have "written s' = written s1 @ [nd[16 := word_of_int ((counter s1 + 1) mod 256)]]"
    by (auto simp: write_state_eq split: if_splits)
  moreover have "uint (nd[16 := word_of_int ((counter s1 + 1) mod 256)] ! 6) = py_int (t * 2)"
    using enable_step_byte6 [OF nd] by simp
  ultimately show ?thesis by blast
qed

lemma set_schedule_success_byte6:
  assumes c: "\<not> falsy (state_data s)" and m: "mode \<noteq> OFF"
    and run: "set_schedule mode hour minute temp s = (None, s')"
  shows "written s' \<noteq> [] \<and>
         uint (last (written s') ! 6) = py_int (max 0 (min 100 temp) * 2)"
proof -
  from run m obtain f where
    "and_then f (modify_and_write
       (enable_step_edits mode hour minute (max 0 (min 100 temp)))) s = (None, s')"
    unfolding set_schedule_cached [OF c] by (auto split: if_splits)
  then obtain s1 where
    "modify_and_write (enable_step_edits mode hour minute (max 0 (min 100 temp))) s1 = (None, s')"
    using and_then_success by blast
  from enable_write_byte6 [OF this] show ?thesis by auto
qed


lemma and_not8_plus1_range:
  "0 \<le> (uint (w::byte) AND NOT 8) + 1 \<and> (uint w AND NOT 8) + 1 \<le> 255"
proof -
  define x where "x = uint w AND NOT 8"
  have x0: "0 \<le> x" by (simp add: x_def and_nonnegative_int_iff)
  have "x \<le> uint w" unfolding x_def by (rule AND_upper1) simp
  then have x255: "x \<le> 255" using uint_byte_range [of w] by linarith
  have "(word_of_int x :: byte) = w AND NOT 8"
    by (simp add: x_def of_int_and_eq of_int_not_eq)
  then have "x = uint (w AND NOT 8)" using x0 x255 uint_byte_of_small [of x] by simp
  moreover have "w AND NOT 8 \<le> NOT 8" by (rule word_and_le1)
  then have "uint (w AND NOT 8) \<le> uint (NOT 8 :: byte)" by (simp only: word_le_def)
  moreover have "uint (NOT 8 :: byte) = 247" by simp
  ultimately have "x \<le> 247" by simp
  then show ?thesis using x0 by (simp add: x_def)
qed

lemma disable_write_ok:
  assumes "state_data s = Some d" and "length d = 17" and "connected s"
  shows "\<exists>s1 d1. modify_and_write disable_step_edits s = (None, s1) \<and>
           state_data s1 = Some d1 \<and> length d1 = 17 \<and> connected s1"
proof -
  let ?d' = "d[0 := d ! 0 AND NOT 8, 6 := 0xC0, 8 := 0, 9 := 0]"
  let ?c = "(uint (?d' ! 16) + 1) mod 256"
  have r: "0 \<le> ?c" "?c \<le> 255" by simp_all
  have "setitem ?d' 16 ?c = Inr (?d'[16 := word_of_int ?c])"
    using assms(2) r by (intro setitem_ok) simp_all
  then have "disable_step_edits d = Inr (?d'[16 := word_of_int ?c])"
    using assms(2)
    by (simp add: disable_step_edits_def schedule_off_edits_ok bindE_def getitem_def and_255)
  then show ?thesis using assms
    by (simp add: modify_and_write_def write_state_eq)
qed

lemma enable_daily_ok:
  assumes "state_data s1 = Some d1" and "length d1 = 17" and "connected s1"
    and "0 \<le> hour" "hour \<le> 23" "0 \<le> minute" "minute \<le> 59"
    and "0 \<le> py_int (t * 2)" "py_int (t * 2) \<le> 255"
  shows "fst (modify_and_write (enable_step_edits DAILY hour minute t) s1) = None"
proof -
  let ?d4 = "d1[0 := d1 ! 0 OR 8, 6 := word_of_int (py_int (t * 2)),
                8 := word_of_int minute, 9 := word_of_int hour]"
  let ?v = "(uint (d1 ! 16) AND NOT 8) + 1"
  have v: "0 \<le> ?v" "?v \<le> 255" using and_not8_plus1_range [of "d1 ! 16"] by simp_all
  have "setitem ?d4 16 ?v = Inr (?d4[16 := word_of_int ?v])"
    using assms(2) v by (intro setitem_ok) simp_all
  then have "enable_step_edits DAILY hour minute t d1 = Inr (?d4[16 := word_of_int ?v])"
    using assms(2,4-9)
    by (simp add: enable_step_edits_def ior_item_ok setitem_ok bindE_def getitem_def)
  then show ?thesis using assms(1,2,3)
    by (simp add: modify_and_write_def write_state_eq)
qed

lemma set_schedule_daily_returns:
  assumes "state_data s = Some d" and "length d = 17" and "connected s"
    and "0 \<le> hour" "hour \<le> 23" "0 \<le> minute" "minute \<le> 59"
  shows "fst (set_schedule DAILY hour minute temp s) = None"
proof -
  let ?t = "max 0 (min 100 temp)"
  have nf: "\<not> falsy (state_data s)" using assms(1,2) by (auto simp: falsy_def)
  have b: "0 \<le> py_int (?t * 2)" "py_int (?t * 2) \<le> 255"
    using clamped_temp_byte [of temp] by simp_all
  show ?thesis
  proof (cases "(get_schedule_mode s = Some ''once'' \<or> get_schedule_mode s = Some ''daily'')
                 \<and> get_schedule_mode s \<noteq> Some (ScheduleMode_name_lower DAILY)")
    case True
    from disable_write_ok [OF assms(1,2,3)] obtain s1 d1 where s1:
      "modify_and_write disable_step_edits s = (None, s1)"
      "state_data s1 = Some d1" "length d1 = 17" "connected s1" by blast
    have "fst (modify_and_write (enable_step_edits DAILY hour minute ?t) s1) = None"
      using s1(2,3,4) assms(4-7) b by (rule enable_daily_ok)
    then show ?thesis using True s1(1) assms(4-7)
      by (auto simp: set_schedule_cached [OF nf] and_then_def)
  next
    case False
    have "fst (modify_and_write (enable_step_edits DAILY hour minute ?t) s) = None"
      using assms b by (intro enable_daily_ok) 
    then show ?thesis using False assms(4-7)
      by (auto simp: set_schedule_cached [OF nf] and_then_def)
  qed
qed


lemma py_int_clamped: "py_int (max 0 (min 100 t) * 2) = \<lfloor>max 0 (min 100 t) * 2\<rfloor>"
  by (simp add: py_int_def)

text \<open>
  Claim C9, amended. An hour outside \<open>[0, 23]\<close> or a minute outside \<open>[0, 59]\<close>
  makes \<open>set_clock_time\<close>, and \<open>set_schedule\<close> with mode ONCE or DAILY, raise before
  any physical write: the call ends in an exception with nothing written and the device
  characteristic untouched, and when the cache is non-empty the exception is ValueError
  and the object is left exactly as it was.

  A chime volume outside \<open>[0, 10]\<close> or a temperature outside \<open>[0, 100]\<close> is not
  rejected but clamped. With a cached 17-byte blob and a connected link,
  \<open>set_chime_volume\<close> and \<open>set_target_temperature\<close> return normally after exactly
  one write, in which byte 14 is the volume clamped to \<open>[0, 10]\<close>, respectively byte 4
  is twice the temperature clamped to \<open>[0, 100]\<close> (truncated), and every other byte
  below 16 is the cached one. \<open>set_schedule\<close> with an hour and a minute in range
  returns normally in mode DAILY whatever the temperature; whenever \<open>set_schedule\<close>
  with mode ONCE or DAILY returns normally, byte 6 of the last written blob is twice the
  clamped temperature (truncated). Each of the three setters behaves on any value
  exactly as on the clamped one.
\<close>

theorem out_of_range_arguments:
  "(\<not> (0 \<le> hour \<and> hour \<le> 23) \<or> \<not> (0 \<le> minute \<and> minute \<le> 59) \<longrightarrow>
      (\<not> falsy (state_data s) \<longrightarrow>
         set_clock_time hour minute cmode s = (Some ValueError, s)) \<and>
      (\<not> falsy (state_data s) \<and> smode \<noteq> OFF \<longrightarrow>
         set_schedule smode hour minute temp s = (Some ValueError, s)) \<and>
      (fst (set_clock_time hour minute cmode s) \<noteq> None \<and>
       written (snd (set_clock_time hour minute cmode s)) = written s \<and>
       char_value (snd (set_clock_time hour minute cmode s)) = char_value s) \<and>
      (smode \<noteq> OFF \<longrightarrow>
       fst (set_schedule smode hour minute temp s) \<noteq> None \<and>
       written (snd (set_schedule smode hour minute temp s)) = written s \<and>
       char_value (snd (set_schedule smode hour minute temp s)) = char_value s)) \<and>
   (state_data s = Some d \<and> length d = 17 \<and> connected s \<longrightarrow>
      (\<exists>w. set_chime_volume volume s =
              (None, s\<lparr>char_value := w, written := written s @ [w],
                       state_data := Some w, counter := (counter s + 1) mod 256\<rparr>) \<and>
           uint (w ! 14) = max 0 (min 10 volume) \<and>
           (\<forall>i<16. i \<noteq> 14 \<longrightarrow> w ! i = d ! i)) \<and>
      (\<exists>w. set_target_temperature temp s =
              (None, s\<lparr>char_value := w, written := written s @ [w],
                       state_data := Some w, counter := (counter s + 1) mod 256\<rparr>) \<and>
           uint (w ! 4) = \<lfloor>max 0 (min 100 temp) * 2\<rfloor> \<and>
           (\<forall>i<16. i \<noteq> 4 \<longrightarrow> w ! i = d ! i)) \<and>
      (0 \<le> h \<and> h \<le> 23 \<and> 0 \<le> m \<and> m \<le> 59 \<longrightarrow>
         fst (set_schedule DAILY h m temp s) = None)) \<and>
   (\<not> falsy (state_data s) \<and> smode \<noteq> OFF \<and>
    set_schedule smode h m temp s = (None, s') \<longrightarrow>
      written s' \<noteq> [] \<and>
      uint (last (written s') ! 6) = \<lfloor>max 0 (min 100 temp) * 2\<rfloor>) \<and>
   set_chime_volume volume s = set_chime_volume (max 0 (min 10 volume)) s \<and>
   set_target_temperature temp s = set_target_temperature (max 0 (min 100 temp)) s \<and>
   set_schedule smode h m temp s = set_schedule smode h m (max 0 (min 100 temp)) s"
proof (intro conjI impI)
  assume bad: "\<not> (0 \<le> hour \<and> hour \<le> 23) \<or> \<not> (0 \<le> minute \<and> minute \<le> 59)"
  {
    assume "\<not> falsy (state_data s)"
    then show "set_clock_time hour minute cmode s = (Some ValueError, s)"
      using bad by (auto simp: set_clock_time_def and_then_def ensure_state_def)
  }
  {
    assume "\<not> falsy (state_data s) \<and> smode \<noteq> OFF"
    then show "set_schedule smode hour minute temp s = (Some ValueError, s)"
      using bad by (auto simp: set_schedule_cached)
  }
  obtain r s1 where e: "ensure_state s = (r, s1)" by (cases "ensure_state s")
  have ct: "set_clock_time hour minute cmode s =
              (case r of None \<Rightarrow> (Some ValueError, s1) | Some x \<Rightarrow> (Some x, s1))"
    using bad e by (auto simp: set_clock_time_def and_then_def split: option.splits)
  show "fst (set_clock_time hour minute cmode s) \<noteq> None"
    unfolding ct by (simp split: option.splits)
  show "written (snd (set_clock_time hour minute cmode s)) = written s"
    unfolding ct using ensure_state_no_write [OF e] by (simp split: option.splits)
  show "char_value (snd (set_clock_time hour minute cmode s)) = char_value s"
    unfolding ct using ensure_state_no_write [OF e] by (simp split: option.splits)
  {
    assume off: "smode \<noteq> OFF"
    have ss: "set_schedule smode hour minute temp s =
                (case r of None \<Rightarrow> (Some ValueError, s1) | Some x \<Rightarrow> (Some x, s1))"
      using bad e off by (auto simp: set_schedule_def and_then_def split: option.splits)
    show "fst (set_schedule smode hour minute temp s) \<noteq> None"
      unfolding ss by (simp split: option.splits)
    show "written (snd (set_schedule smode hour minute temp s)) = written s"
      unfolding ss using ensure_state_no_write [OF e] by (simp split: option.splits)
    show "char_value (snd (set_schedule smode hour minute temp s)) = char_value s"
      unfolding ss using ensure_state_no_write [OF e] by (simp split: option.splits)
  }
next
  assume "state_data s = Some d \<and> length d = 17 \<and> connected s"
  then have h: "state_data s = Some d" "length d = 17" "connected s" by simp_all
  have v: "0 \<le> max 0 (min 10 volume)" "max 0 (min 10 volume) \<le> 255" by simp_all
  from setter_single_write [OF h _ v, of 14] obtain w where w:
    "and_then ensure_state (modify_and_write (\<lambda>d. setitem d 14 (max 0 (min 10 volume)))) s =
       (None, s\<lparr>char_value := w, written := written s @ [w],
                state_data := Some w, counter := (counter s + 1) mod 256\<rparr>)"
    "w = d[14 := word_of_int (max 0 (min 10 volume)),
           16 := word_of_int ((counter s + 1) mod 256)]"
    "uint (w ! 14) = max 0 (min 10 volume)" by auto
  have "\<forall>i<16. i \<noteq> 14 \<longrightarrow> w ! i = d ! i" using w(2) by simp
  then show "\<exists>w. set_chime_volume volume s =
              (None, s\<lparr>char_value := w, written := written s @ [w],
                       state_data := Some w, counter := (counter s + 1) mod 256\<rparr>) \<and>
           uint (w ! 14) = max 0 (min 10 volume) \<and>
           (\<forall>i<16. i \<noteq> 14 \<longrightarrow> w ! i = d ! i)"
    using w(1,3) by (intro exI [of _ w]) (simp add: set_chime_volume_def Let_def)
  have t: "0 \<le> py_int (max 0 (min 100 temp) * 2)" "py_int (max 0 (min 100 temp) * 2) \<le> 255"
    using clamped_temp_byte [of temp] by simp_all
  from setter_single_write [OF h _ t, of 4] obtain u where u:
    "and_then ensure_state
       (modify_and_write (\<lambda>d. setitem d 4 (py_int (max 0 (min 100 temp) * 2)))) s =
       (None, s\<lparr>char_value := u, written := written s @ [u],
                state_data := Some u, counter := (counter s + 1) mod 256\<rparr>)"
    "u = d[4 := word_of_int (py_int (max 0 (min 100 temp) * 2)),
           16 := word_of_int ((counter s + 1) mod 256)]"
    "uint (u ! 4) = py_int (max 0 (min 100 temp) * 2)" by auto
  have "\<forall>i<16. i \<noteq> 4 \<longrightarrow> u ! i = d ! i" using u(2) by simp
  then show "\<exists>w. set_target_temperature temp s =
              (None, s\<lparr>char_value := w, written := written s @ [w],
                       state_data := Some w, counter := (counter s + 1) mod 256\<rparr>) \<and>
           uint (w ! 4) = \<lfloor>max 0 (min 100 temp) * 2\<rfloor> \<and>
           (\<forall>i<16. i \<noteq> 4 \<longrightarrow> w ! i = d ! i)"
    using u(1,3)
    by (intro exI [of _ u]) (simp add: set_target_temperature_def Let_def py_int_clamped)
  {
    assume "0 \<le> h \<and> h \<le> 23 \<and> 0 \<le> m \<and> m \<le> 59"
    then show "fst (set_schedule DAILY h m temp s) = None"
      using h by (intro set_schedule_daily_returns) simp_all
  }
next
  assume a: "\<not> falsy (state_data s) \<and> smode \<noteq> OFF \<and>
             set_schedule smode h m temp s = (None, s')"
  then have a1: "\<not> falsy (state_data s)" and a2: "smode \<noteq> OFF"
    and a3: "set_schedule smode h m temp s = (None, s')" by simp_all
  have "written s' \<noteq> [] \<and>
             uint (last (written s') ! 6) = py_int (max 0 (min 100 temp) * 2)"
    using a1 a2 a3 by (rule set_schedule_success_byte6)
  then show "written s' \<noteq> []"
    and "uint (last (written s') ! 6) = \<lfloor>max 0 (min 100 temp) * 2\<rfloor>"
    by (simp_all add: py_int_clamped)
next
  show "set_chime_volume volume s = set_chime_volume (max 0 (min 10 volume)) s"
    by (simp only: set_chime_volume_def Let_def clamp_clamp)
  show "set_target_temperature temp s = set_target_temperature (max 0 (min 100 temp)) s"
    by (simp only: set_target_temperature_def Let_def clamp_clamp)
  show "set_schedule smode h m temp s = set_schedule smode h m (max 0 (min 100 temp)) s"
    by (simp only: set_schedule_def Let_def clamp_clamp)
qed


theorem out_of_range_arguments_witness:
  "\<not> (0 \<le> (24::int) \<and> (24::int) \<le> 23) \<and>
   \<not> falsy (state_data example_session) \<and> DAILY \<noteq> OFF \<and>
   state_data example_session = Some example_blob \<and> length example_blob = 17 \<and>
   connected example_session \<and>
   set_clock_time 24 0 None example_session = (Some ValueError, example_session) \<and>
   set_schedule DAILY 24 0 150 example_session = (Some ValueError, example_session) \<and>
   (\<exists>w. set_chime_volume 11 example_session =
           (None, example_session\<lparr>char_value := w, written := written example_session @ [w],
                    state_data := Some w, counter := (counter example_session + 1) mod 256\<rparr>) \<and>
        uint (w ! 14) = 10) \<and>
   (\<exists>w. set_target_temperature 150 example_session =
           (None, example_session\<lparr>char_value := w, written := written example_session @ [w],
                    state_data := Some w, counter := (counter example_session + 1) mod 256\<rparr>) \<and>
        uint (w ! 4) = 200) \<and>
   set_schedule DAILY 7 0 150 example_session =
     (None, example_session
        \<lparr>char_value := [8, 2, 0, 128, 180, 1, 200, 2, 0, 7, 30, 12, 1, 0, 5, 0, 6],
         written := [[8, 2, 0, 128, 180, 1, 200, 2, 0, 7, 30, 12, 1, 0, 5, 0, 6]],
         state_data := Some [8, 2, 0, 128, 180, 1, 200, 2, 0, 7, 30, 12, 1, 0, 5, 0, 6],
         counter := 6\<rparr>) \<and>
   uint (last (written (example_session
        \<lparr>char_value := [8, 2, 0, 128, 180, 1, 200, 2, 0, 7, 30, 12, 1, 0, 5, 0, 6],
         written := [[8, 2, 0, 128, 180, 1, 200, 2, 0, 7, 30, 12, 1, 0, 5, 0, 6]],
         state_data := Some [8, 2, 0, 128, 180, 1, 200, 2, 0, 7, 30, 12, 1, 0, 5, 0, 6],
         counter := 6\<rparr>)) ! 6) = 200"
proof -
  let ?s' = "example_session
        \<lparr>char_value := [8, 2, 0, 128, 180, 1, 200, 2, 0, 7, 30, 12, 1, 0, 5, 0, 6],
         written := [[8, 2, 0, 128, 180, 1, 200, 2, 0, 7, 30, 12, 1, 0, 5, 0, 6]],
         state_data := Some [8, 2, 0, 128, 180, 1, 200, 2, 0, 7, 30, 12, 1, 0, 5, 0, 6],
         counter := 6\<rparr>"
  have bad: "\<not> (0 \<le> (24::int) \<and> (24::int) \<le> 23)" by simp
  have c: "\<not> falsy (state_data example_session)" "DAILY \<noteq> OFF"
    "state_data example_session = Some example_blob" "length example_blob = 17"
    "connected example_session"
    by (simp_all add: falsy_def example_session_def example_blob_def)
  have run: "set_schedule DAILY 7 0 150 example_session = (None, ?s')"
    by (simp add: model_defs example_session_def example_blob_def)
  have cl: "max 0 (min 10 (11::int)) = 10" "\<lfloor>max 0 (min 100 (150::rat)) * 2\<rfloor> = 200"
    by simp_all
  note inst = out_of_range_arguments
    [where hour = 24 and minute = 0 and s = example_session and cmode = None
       and smode = DAILY and temp = 150 and d = example_blob and volume = 11
       and h = 7 and m = 0 and s' = "?s'"]
  from inst bad c have
    "set_clock_time 24 0 None example_session = (Some ValueError, example_session)"
    "set_schedule DAILY 24 0 150 example_session = (Some ValueError, example_session)"
    by blast+
  moreover from inst c obtain w where
    "set_chime_volume 11 example_session =
           (None, example_session\<lparr>char_value := w, written := written example_session @ [w],
                    state_data := Some w, counter := (counter example_session + 1) mod 256\<rparr>)"
    "uint (w ! 14) = max 0 (min 10 11)" by blast
  moreover from inst c obtain u where
    "set_target_temperature 150 example_session =
           (None, example_session\<lparr>char_value := u, written := written example_session @ [u],
                    state_data := Some u, counter := (counter example_session + 1) mod 256\<rparr>)"
    "uint (u ! 4) = \<lfloor>max 0 (min 100 (150::rat)) * 2\<rfloor>" by blast
  moreover from inst c run have
    "uint (last (written ?s') ! 6) = \<lfloor>max 0 (min 100 (150::rat)) * 2\<rfloor>" by blast
  ultimately show ?thesis using bad c run unfolding cl by blast
qed

subsection \<open>Read-modify-write\<close>

lemma agree_refl: "agree M d d"
  by (simp add: agree_def)

lemma agree_trans: "agree M a b \<Longrightarrow> agree M b c \<Longrightarrow> agree M a c"
  by (simp add: agree_def)

lemma agree_upd16: "agree M d nd \<Longrightarrow> agree M d (nd[16 := x])"
  by (simp add: agree_def)

lemma nth_upd_cases: "d[i := x] ! j = (if j = i \<and> i < length d then x else d ! j)"
  by (cases "i < length d") (auto simp: nth_list_update list_update_beyond)

lemma minus_256_byte: "(- 256 :: byte) = 0"
proof -
  have "uint (- 256 :: byte) = 0" by (simp add: uint_word_ariths)
  then show ?thesis by (simp only: uint_0_iff)
qed

lemma and_not_255: "(x::byte) AND - 256 = 0"
  by (simp add: minus_256_byte)

lemma agree_setitem:
  "M i = 0xFF \<or> 16 \<le> i \<Longrightarrow> agree M d (d[i := x])"
  by (auto simp: agree_def nth_upd_cases and_not_255)

lemma and_not_self: "((x::byte) AND NOT m) AND NOT m = x AND NOT m"
  by (rule bit_word_eqI) (auto simp: bit_and_iff bit_not_iff)

lemma or_and_not_self: "((x::byte) OR m) AND NOT m = x AND NOT m"
  by (rule bit_word_eqI) (auto simp: bit_and_iff bit_or_iff bit_not_iff)

lemma edits_setitem: "M i = 0xFF \<or> 16 \<le> i \<Longrightarrow> edits_ok M (\<lambda>d. setitem d i v)"
  unfolding edits_ok_def by (auto dest!: setitem_Inr intro: agree_setitem)

lemma edits_iand:
  assumes "word_of_int m = NOT (M i)"
  shows "edits_ok M (\<lambda>d. iand_item d i m)"
  unfolding edits_ok_def
proof (intro allI impI)
  fix d nd assume run: "iand_item d i m = Inr nd"
  then have i: "i < length d"
    by (auto simp: iand_item_def getitem_def bindE_def split: if_splits)
  then have "nd = d[i := d ! i AND NOT (M i)]" using run assms by (simp add: iand_item_ok)
  then show "agree M d nd" by (auto simp: agree_def nth_upd_cases and_not_self)
qed

lemma edits_ior:
  assumes "word_of_int m = M i" and "0 \<le> m" and "m < 256"
  shows "edits_ok M (\<lambda>d. ior_item d i m)"
  unfolding edits_ok_def
proof (intro allI impI)
  fix d nd assume run: "ior_item d i m = Inr nd"
  then have i: "i < length d"
    by (auto simp: ior_item_def getitem_def bindE_def split: if_splits)
  then have "nd = d[i := d ! i OR M i]" using run assms by (simp add: ior_item_ok)
  then show "agree M d nd" by (auto simp: agree_def nth_upd_cases or_and_not_self)
qed

lemma edits_bind:
  "edits_ok M e1 \<Longrightarrow> edits_ok M e2 \<Longrightarrow> edits_ok M (\<lambda>d. bindE (e1 d) e2)"
  unfolding edits_ok_def bindE_def
  by (auto split: sum.splits) (metis agree_trans)

lemma edits_Inr: "edits_ok M Inr"
  by (simp add: edits_ok_def agree_refl)

lemma edits_counter_byte: "edits_ok M (\<lambda>d. bindE (getitem d 16) (\<lambda>c. setitem d 16 (f c)))"
  unfolding edits_ok_def bindE_def
  by (auto split: sum.splits dest!: setitem_Inr intro: agree_setitem)


lemma framesD:
  "frames M d f \<Longrightarrow> state_data s = Some d0 \<Longrightarrow> agree M d d0 \<Longrightarrow> f s = (r, s') \<Longrightarrow>
   \<exists>new d'. written s' = written s @ new \<and> (\<forall>w\<in>set new. agree M d w) \<and>
             state_data s' = Some d' \<and> agree M d d'"
  unfolding frames_def by blast

lemma frames_stay:
  "state_data s = Some d0 \<Longrightarrow> agree M d d0 \<Longrightarrow>
   \<exists>new d'. written s = written s @ new \<and> (\<forall>w\<in>set new. agree M d w) \<and>
             state_data s = Some d' \<and> agree M d d'"
  by (rule exI [of _ "[]"]) simp

lemma frames_return: "frames M d (\<lambda>s. (r, s))"
  unfolding frames_def by (auto intro: frames_stay)

lemma frames_ensure_state: "d \<noteq> [] \<Longrightarrow> frames M d ensure_state"
  unfolding frames_def
proof (intro allI impI)
  fix s r s' d0
  assume ne: "d \<noteq> []" and c: "state_data s = Some d0" and a: "agree M d d0"
    and run: "ensure_state s = (r, s')"
  have "d0 \<noteq> []" using a ne by (auto simp: agree_def)
  then have "s' = s" using run c by (simp add: ensure_state_def falsy_def)
  then show "\<exists>new d'. written s' = written s @ new \<and> (\<forall>w\<in>set new. agree M d w) \<and>
                      state_data s' = Some d' \<and> agree M d d'"
    using frames_stay [OF c a] by simp
qed

lemma frames_modify_and_write:
  assumes "edits_ok M e"
  shows "frames M d (modify_and_write e)"
  unfolding frames_def
proof (intro allI impI)
  fix s r s' d0
  assume c: "state_data s = Some d0" and a: "agree M d d0"
    and run: "modify_and_write e s = (r, s')"
  let ?goal = "\<exists>new d'. written s' = written s @ new \<and> (\<forall>w\<in>set new. agree M d w) \<and>
                        state_data s' = Some d' \<and> agree M d d'"
  from run c consider "s' = s"
    | nd x where "e d0 = Inr nd" "written s' = written s @ [nd[16 := x]]"
        "state_data s' = Some (nd[16 := x])"
    by (auto simp: modify_and_write_def write_state_eq split: sum.splits if_splits)
  then show ?goal
  proof cases
    case 1
    then show ?thesis using frames_stay [OF c a] by simp
  next
    case 2
    have "agree M d0 nd" using assms 2(1) unfolding edits_ok_def by blast
    then have "agree M d (nd[16 := x])" using a by (blast intro: agree_trans agree_upd16)
    then show ?thesis using 2(2,3) by (intro exI [of _ "[nd[16 := x]]"]) simp
  qed
qed

lemma frames_and_then:
  assumes "frames M d f" and "frames M d g"
  shows "frames M d (and_then f g)"
  unfolding frames_def
proof (intro allI impI)
  fix s r s' d0
  assume c: "state_data s = Some d0" and a: "agree M d d0"
    and run: "and_then f g s = (r, s')"
  obtain r1 s1 where f: "f s = (r1, s1)" by (cases "f s")
  from framesD [OF assms(1) c a f] obtain n1 d1 where 1:
    "written s1 = written s @ n1" "\<forall>w\<in>set n1. agree M d w"
    "state_data s1 = Some d1" "agree M d d1" by blast
  show "\<exists>new d'. written s' = written s @ new \<and> (\<forall>w\<in>set new. agree M d w) \<and>
                  state_data s' = Some d' \<and> agree M d d'"
  proof (cases r1)
    case None
    then have g: "g s1 = (r, s')" using run f by (simp add: and_then_def)
    from framesD [OF assms(2) 1(3) 1(4) g] obtain n2 d2 where 2:
      "written s' = written s1 @ n2" "\<forall>w\<in>set n2. agree M d w"
      "state_data s' = Some d2" "agree M d d2" by blast
    show ?thesis using 1 2 by (intro exI [of _ "n1 @ n2"] exI [of _ d2]) auto
  next
    case (Some e)
    then have "s' = s1" using run f by (simp add: and_then_def)
    then show ?thesis using 1 by blast
  qed
qed

lemma frames_if: "frames M d f \<Longrightarrow> frames M d g \<Longrightarrow> frames M d (if b then f else g)"
  by simp

lemma frames_setter:
  "d \<noteq> [] \<Longrightarrow> edits_ok M e \<Longrightarrow> frames M d (and_then ensure_state (modify_and_write e))"
  by (intro frames_and_then frames_ensure_state frames_modify_and_write)


lemma edits_if:
  "edits_ok M e1 \<Longrightarrow> edits_ok M e2 \<Longrightarrow> edits_ok M (\<lambda>d. if b then e1 d else e2 d)"
  by (cases b) simp_all

lemma edits_bit_flag:
  assumes "M i = word_of_int m" and "0 \<le> m" and "m < 256"
  shows "edits_ok M (\<lambda>d. if b then ior_item d i m else iand_item d i (NOT m))"
  using assms by (intro edits_if edits_ior edits_iand) (simp_all add: of_int_not_eq)

lemma edits_schedule_off:
  "M 0 = 0x08 \<Longrightarrow> M 6 = 0xFF \<Longrightarrow> M 8 = 0xFF \<Longrightarrow> M 9 = 0xFF \<Longrightarrow>
   edits_ok M schedule_off_edits"
  unfolding schedule_off_edits_def
  by (intro edits_bind edits_iand edits_setitem) (simp_all add: of_int_not_eq)

lemma edits_disable_step:
  "M 0 = 0x08 \<Longrightarrow> M 6 = 0xFF \<Longrightarrow> M 8 = 0xFF \<Longrightarrow> M 9 = 0xFF \<Longrightarrow>
   edits_ok M disable_step_edits"
  unfolding disable_step_edits_def
  by (intro edits_bind edits_schedule_off edits_counter_byte)

lemma edits_enable_step:
  assumes "M 0 = 0x08" "M 6 = 0xFF" "M 8 = 0xFF" "M 9 = 0xFF"
  shows "edits_ok M (enable_step_edits mode hour minute temp)"
proof -
  have tail: "edits_ok M (\<lambda>d. bindE (getitem d 16) (\<lambda>c.
       if mode = ONCE then setitem d 16 ((c OR 0x08) + 1)
       else setitem d 16 ((c AND NOT 0x08) + 1)))"
    by (cases "mode = ONCE") (simp_all add: edits_counter_byte)
  have e0: "edits_ok M (\<lambda>d. ior_item d 0 0x08)"
    using assms(1) by (intro edits_ior) simp_all
  have e6: "edits_ok M (\<lambda>d. setitem d 6 (py_int (temp * 2)))"
    and e8: "edits_ok M (\<lambda>d. setitem d 8 minute)"
    and e9: "edits_ok M (\<lambda>d. setitem d 9 hour)"
    using assms by (simp_all add: edits_setitem)
  have "enable_step_edits mode hour minute temp =
          (\<lambda>d. bindE (ior_item d 0 0x08) (\<lambda>d. bindE (setitem d 6 (py_int (temp * 2)))
             (\<lambda>d. bindE (setitem d 8 minute) (\<lambda>d. bindE (setitem d 9 hour)
               (\<lambda>d. bindE (getitem d 16) (\<lambda>c.
                  if mode = ONCE then setitem d 16 ((c OR 0x08) + 1)
                  else setitem d 16 ((c AND NOT 0x08) + 1)))))))"
    by (simp add: enable_step_edits_def fun_eq_iff)
  then show ?thesis
    by (simp only:) (intro edits_bind e0 e6 e8 e9 tail)
qed

lemma frames_set_clock_time:
  assumes ne: "d \<noteq> []" and M: "M 10 = 0xFF" "M 11 = 0xFF" "md \<noteq> None \<longrightarrow> M 12 = 0xFF"
  shows "frames M d (set_clock_time h m md)"
proof -
  let ?e = "\<lambda>d. bindE (setitem d 10 m) (\<lambda>d. bindE (setitem d 11 h) (\<lambda>d.
                case md of None \<Rightarrow> Inr d | Some x \<Rightarrow> setitem d 12 (ClockMode_value x)))"
  have last: "edits_ok M (\<lambda>d. case md of None \<Rightarrow> Inr d
                                | Some x \<Rightarrow> setitem d 12 (ClockMode_value x))"
  proof (cases md)
    case None
    then show ?thesis by (simp add: edits_ok_def agree_refl)
  next
    case (Some x)
    then have "M 12 = 0xFF" using M(3) by simp
    then have "edits_ok M (\<lambda>d. setitem d 12 (ClockMode_value x))"
      by (simp add: edits_setitem)
    then show ?thesis using Some by simp
  qed
  have e: "edits_ok M ?e"
    by (intro edits_bind edits_setitem last) (simp_all add: M)
  have body: "(\<lambda>s. if \<not> (0 \<le> h \<and> h \<le> 23) then (Some ValueError, s)
       else if \<not> (0 \<le> m \<and> m \<le> 59) then (Some ValueError, s)
       else modify_and_write ?e s) =
     (if \<not> (0 \<le> h \<and> h \<le> 23) then (\<lambda>s. (Some ValueError, s))
      else if \<not> (0 \<le> m \<and> m \<le> 59) then (\<lambda>s. (Some ValueError, s))
      else modify_and_write ?e)"
    by (simp add: fun_eq_iff)
  show ?thesis
    unfolding set_clock_time_def body
    by (intro frames_and_then frames_ensure_state ne frames_if frames_return
        frames_modify_and_write e)
qed

lemma frames_set_schedule:
  assumes ne: "d \<noteq> []" and M: "M 0 = 0x08" "M 6 = 0xFF" "M 8 = 0xFF" "M 9 = 0xFF"
  shows "frames M d (set_schedule mode hour minute temp)"
  unfolding frames_def
proof (intro allI impI)
  fix s r s' d0
  assume c: "state_data s = Some d0" and a: "agree M d d0"
    and run: "set_schedule mode hour minute temp s = (r, s')"
  have "d0 \<noteq> []" using a ne by (auto simp: agree_def)
  then have nf: "\<not> falsy (state_data s)" using c by (simp add: falsy_def)
  consider (off) "modify_and_write schedule_off_edits s = (r, s')"
    | (bad) "s' = s"
    | (steps) b t where
        "and_then (if b then modify_and_write disable_step_edits else (\<lambda>s. (None, s)))
           (modify_and_write (enable_step_edits mode hour minute t)) s = (r, s')"
    using run unfolding set_schedule_cached [OF nf] by (auto split: if_splits)
  then show "\<exists>new d'. written s' = written s @ new \<and> (\<forall>w\<in>set new. agree M d w) \<and>
                      state_data s' = Some d' \<and> agree M d d'"
  proof cases
    case off
    have "frames M d (modify_and_write schedule_off_edits)"
      by (intro frames_modify_and_write edits_schedule_off M)
    then show ?thesis using c a off by (rule framesD)
  next
    case bad
    then show ?thesis using frames_stay [OF c a] by simp
  next
    case steps
    have "frames M d (and_then
            (if b then modify_and_write disable_step_edits else (\<lambda>s. (None, s)))
            (modify_and_write (enable_step_edits mode hour minute t)))"
      by (intro frames_and_then frames_if frames_modify_and_write frames_return
          edits_disable_step edits_enable_step M)
    then show ?thesis using c a steps by (rule framesD)
  qed
qed

lemma frames_exec: "d \<noteq> [] \<Longrightarrow> frames (target_mask c) d (exec c)"
proof (cases c)
  case (SetClockTime h m md)
  assume "d \<noteq> []"
  then show ?thesis using SetClockTime by (simp add: frames_set_clock_time)
next
  case (SetSchedule md h m t)
  assume "d \<noteq> []"
  then show ?thesis using SetSchedule by (simp add: frames_set_schedule)
next
  case (SetUnits u)
  assume "d \<noteq> []"
  then show ?thesis using SetUnits
    by (simp add: set_units_def frames_setter edits_bit_flag)
next
  case (SetPreBoil b)
  assume "d \<noteq> []"
  then show ?thesis using SetPreBoil
    by (simp add: set_pre_boil_def frames_setter edits_bit_flag)
next
  case (SetAltitude a)
  assume "d \<noteq> []"
  then show ?thesis using SetAltitude
    by (simp add: set_altitude_def Let_def frames_setter edits_bind edits_setitem)
qed (simp_all add: set_target_temperature_def set_clock_mode_def set_chime_volume_def
       set_hold_time_def set_language_def Let_def frames_setter edits_setitem)


lemma target_mask_unknown_bytes: "target_mask c 5 = 0 \<and> target_mask c 7 = 0"
  by (cases c) simp_all

text \<open>
  Claim C1. Let the cache hold a 17-byte blob \<open>d\<close> and let any setter be called
  (target temperature, units, clock mode or time, chime, pre-boil, hold, altitude,
  language, schedule), with any outcome. Every blob the call writes, and the blob cached
  afterwards, has 17 bytes and equals \<open>d\<close> on every bit of bytes 0 to 15 outside the
  bits of the field being set; in particular bytes 5 and 7 are those of \<open>d\<close>. Writing
  the cached blob back with no field changed reproduces bytes 0 to 15 exactly; only the
  counter byte 16 differs.
\<close>

theorem setter_preserves_untargeted_bytes:
  assumes "state_data s = Some d" and "length d = 17" and "exec c s = (r, s')"
  shows "\<exists>new d'. written s' = written s @ new \<and> state_data s' = Some d' \<and>
           (\<forall>w\<in>set (d' # new). length w = 17 \<and>
              (\<forall>i<16. w ! i AND NOT (target_mask c i) = d ! i AND NOT (target_mask c i)) \<and>
              w ! 5 = d ! 5 \<and> w ! 7 = d ! 7) \<and>
           (\<forall>s0. write_state d s = (None, s0) \<longrightarrow>
              (\<exists>w. written s0 = written s @ [w] \<and> state_data s0 = Some w \<and>
                   length w = 17 \<and> (\<forall>i<16. w ! i = d ! i)))"
proof -
  have ne: "d \<noteq> []" using assms(2) by auto
  from framesD [OF frames_exec [OF ne] assms(1) agree_refl assms(3)]
  obtain new d' where fr:
    "written s' = written s @ new" "\<forall>w\<in>set new. agree (target_mask c) d w"
    "state_data s' = Some d'" "agree (target_mask c) d d'"
    by blast
  have one: "length w = 17 \<and>
        (\<forall>i<16. w ! i AND NOT (target_mask c i) = d ! i AND NOT (target_mask c i)) \<and>
        w ! 5 = d ! 5 \<and> w ! 7 = d ! 7"
    if "agree (target_mask c) d w" for w
  proof -
    from that have len: "length w = 17"
      and eq: "\<forall>i<16. w ! i AND NOT (target_mask c i) = d ! i AND NOT (target_mask c i)"
      using assms(2) by (simp_all add: agree_def)
    from eq have "w ! 5 AND NOT (target_mask c 5) = d ! 5 AND NOT (target_mask c 5)"
      and "w ! 7 AND NOT (target_mask c 7) = d ! 7 AND NOT (target_mask c 7)"
      by simp_all
    then have "w ! 5 = d ! 5" "w ! 7 = d ! 7"
      by (simp_all add: target_mask_unknown_bytes)
    then show ?thesis using len eq by blast
  qed
  have all: "\<forall>w\<in>set (d' # new). length w = 17 \<and>
        (\<forall>i<16. w ! i AND NOT (target_mask c i) = d ! i AND NOT (target_mask c i)) \<and>
        w ! 5 = d ! 5 \<and> w ! 7 = d ! 7"
    using fr(2,4) one by auto
  have same: "\<forall>s0. write_state d s = (None, s0) \<longrightarrow>
              (\<exists>w. written s0 = written s @ [w] \<and> state_data s0 = Some w \<and>
                   length w = 17 \<and> (\<forall>i<16. w ! i = d ! i))"
    using assms(2) by (auto simp: write_state_eq split: if_splits)
  show ?thesis using fr(1,3) all same by blast
qed

theorem setter_preserves_untargeted_bytes_witness:
  "state_data example_session = Some example_blob \<and> length example_blob = 17 \<and>
   exec (SetUnits FAHRENHEIT) example_session =
     (None, example_session
        \<lparr>char_value := [8, 0, 0, 128, 180, 1, 170, 2, 0, 7, 30, 12, 1, 0, 5, 0, 6],
         written := [[8, 0, 0, 128, 180, 1, 170, 2, 0, 7, 30, 12, 1, 0, 5, 0, 6]],
         state_data := Some [8, 0, 0, 128, 180, 1, 170, 2, 0, 7, 30, 12, 1, 0, 5, 0, 6],
         counter := 6\<rparr>) \<and>
   (\<exists>d'. Some [8, 0, 0, 128, 180, 1, 170, 2, 0, 7, 30, 12, 1, 0, 5, 0, 6] = Some d' \<and>
         length d' = 17 \<and> d' ! 5 = example_blob ! 5 \<and> d' ! 7 = example_blob ! 7 \<and>
         d' ! 1 AND NOT 0x02 = example_blob ! 1 AND NOT 0x02 \<and>
         d' ! 4 = example_blob ! 4)"
proof -
  let ?s' = "example_session
        \<lparr>char_value := [8, 0, 0, 128, 180, 1, 170, 2, 0, 7, 30, 12, 1, 0, 5, 0, 6],
         written := [[8, 0, 0, 128, 180, 1, 170, 2, 0, 7, 30, 12, 1, 0, 5, 0, 6]],
         state_data := Some [8, 0, 0, 128, 180, 1, 170, 2, 0, 7, 30, 12, 1, 0, 5, 0, 6],
         counter := 6\<rparr>"
  have h: "state_data example_session = Some example_blob" "length example_blob = 17"
    by (simp_all add: example_session_def example_blob_def)
  have run: "exec (SetUnits FAHRENHEIT) example_session = (None, ?s')"
    by (simp add: model_defs set_units_def example_session_def example_blob_def)
  from setter_preserves_untargeted_bytes [OF h run] obtain new d' where fr:
    "state_data ?s' = Some d'"
    "\<forall>w\<in>set (d' # new). length w = 17 \<and>
       (\<forall>i<16. w ! i AND NOT (target_mask (SetUnits FAHRENHEIT) i) =
                example_blob ! i AND NOT (target_mask (SetUnits FAHRENHEIT) i)) \<and>
       w ! 5 = example_blob ! 5 \<and> w ! 7 = example_blob ! 7"
    by blast
  from fr(2) have d': "length d' = 17" "d' ! 5 = example_blob ! 5" "d' ! 7 = example_blob ! 7"
    and eq: "\<forall>i<16. d' ! i AND NOT (target_mask (SetUnits FAHRENHEIT) i) =
                example_blob ! i AND NOT (target_mask (SetUnits FAHRENHEIT) i)"
    by simp_all
  have "d' ! 1 AND NOT 0x02 = example_blob ! 1 AND NOT 0x02"
    using eq [rule_format, of 1] by simp
  moreover have "d' ! 4 = example_blob ! 4"
    using eq [rule_format, of 4] by simp
  moreover from fr(1) have "Some [8, 0, 0, 128, 180, 1, 170, 2, 0, 7, 30, 12, 1, 0, 5, 0, 6] = Some d'"
    by simp
  ultimately show ?thesis using h run d' by blast
qed

end
